theory Spec2Isabelle
  imports Main "HOL-Library.Option_ord" "HOL-Library.Product_Lexorder" "HOL-Library.Sublist"
begin

section \<open>JSON values and JavaScript conventions\<close>

text \<open>
  Request bodies are JSON. Numbers are kept to the integers: the only numeric columns
  of the schema are integer columns. A property read \<open>obj.key\<close> that finds nothing is
  JavaScript's \<open>undefined\<close>, modelled as \<open>None\<close>; JSON's \<open>null\<close> is the value \<open>JNull\<close>.
\<close>

datatype json =
    JNull
  | JBool bool
  | JNum int
  | JStr string
  | JArr "json list"
  | JObj "(string \<times> json) list"

text \<open>\<open>obj.key\<close>: the last member of that name wins, as \<open>JSON.parse\<close> has it.\<close>

fun property :: "json \<Rightarrow> string \<Rightarrow> json option" where
  "property (JObj kvs) k = map_of (rev kvs) k"
| "property _ k = None"

text \<open>Truthiness of a JSON value that may be \<open>undefined\<close>, as \<open>||\<close> and \<open>if\<close> test it.\<close>

fun truthy :: "json option \<Rightarrow> bool" where
  "truthy None = False"
| "truthy (Some JNull) = False"
| "truthy (Some (JBool b)) = b"
| "truthy (Some (JNum n)) = (n \<noteq> 0)"
| "truthy (Some (JStr s)) = (s \<noteq> [])"
| "truthy (Some (JArr xs)) = True"
| "truthy (Some (JObj kvs)) = True"

text \<open>\<open>const [x] = rows\<close>: the first row, or \<open>undefined\<close> when there is none.\<close>

fun first :: "'a list \<Rightarrow> 'a option" where
  "first [] = None"
| "first (x # xs) = Some x"

section \<open>Tables (schema.ts)\<close>

text \<open>
  A column without \<open>notNull()\<close> is nullable: its values are options, \<open>None\<close> for SQL
  NULL. Timestamps are integers (a count of clock ticks).
\<close>

type_synonym timestamp = int

record User =
  id_u :: string
  email_u :: "string option"
  firstName_u :: "string option"
  lastName_u :: "string option"
  profileImageUrl_u :: "string option"
  createdAt_u :: "timestamp option"
  updatedAt_u :: "timestamp option"

record Content =
  id_c :: string
  title :: string
  description :: "string option"
  type_c :: string
  videoUrl :: "string option"
  thumbnailHorizontal :: "string option"
  thumbnailVertical :: "string option"
  year :: "int option"
  duration :: "string option"
  rating :: "string option"
  genres :: "string list option"
  cast_c :: "string list option"
  director :: "string option"
  isActive :: "bool option"
  isFeatured :: "bool option"
  viewCount :: "int option"
  createdAt :: "timestamp option"
  updatedAt :: "timestamp option"

record Episode =
  id_e :: string
  contentId_e :: string
  title_e :: string
  description_e :: "string option"
  episodeNumber :: int
  seasonNumber :: "int option"
  videoUrl_e :: string
  thumbnail :: "string option"
  duration_e :: "string option"
  createdAt_e :: "timestamp option"

record Favorite =
  id_f :: string
  userId_f :: string
  contentId_f :: string
  createdAt_f :: "timestamp option"

text \<open>The store: one list of rows per table, in the store's physical order.\<close>

record db =
  users :: "User list"
  content :: "Content list"
  episodes :: "Episode list"
  favorites :: "Favorite list"

definition empty_db :: db where
  "empty_db = \<lparr>users = [], content = [], episodes = [], favorites = []\<rparr>"

text \<open>
  What a statement draws from outside the request: the value of
  \<open>gen_random_uuid()\<close> for a new primary key, the store's clock for \<open>defaultNow()\<close>
  and the server's clock for \<open>new Date()\<close>.
\<close>

record env =
  uuid :: string
  db_now :: timestamp
  js_now :: timestamp

text \<open>
  Errors the store raises: for the constraints that schema.ts declares (primary key,
  references, the length of \<open>varchar(20)\<close>, the range of an \<open>integer\<close> column), and
  for a text it cannot hold.
\<close>

datatype store_error =
  UniqueViolation | ForeignKeyViolation | ValueTooLong | IntegerOutOfRange | InvalidText

text \<open>A text the store takes, as a value or as a parameter, has no NUL character.\<close>

definition bindable :: "string \<Rightarrow> bool" where
  "bindable s \<longleftrightarrow> CHR 0x00 \<notin> set s"

text \<open>The values of an \<open>integer\<close> column: 32 bits, signed.\<close>

definition int4 :: "int \<Rightarrow> bool" where
  "int4 n \<longleftrightarrow> - 2147483648 \<le> n \<and> n \<le> 2147483647"

text \<open>
  A statement with string parameters: the store refuses to bind a parameter it cannot
  hold, and the statement does not run; otherwise the result is the statement's.
\<close>

definition bind :: "string list \<Rightarrow> 'a \<Rightarrow> store_error + 'a" where
  "bind params result = (if list_all bindable params then Inr result else Inl InvalidText)"

section \<open>Insert schemas (schema.ts)\<close>

text \<open>
  \<open>InsertContent\<close> is the content row without \<open>id\<close>, \<open>createdAt\<close>, \<open>updatedAt\<close> and
  \<open>viewCount\<close>. The two \<open>notNull\<close> columns without a default are required; every other
  key may be absent (\<open>None\<close>), null (\<open>Some None\<close>) or a value (\<open>Some (Some v)\<close>).
  \<open>Partial<InsertContent>\<close> makes the two required keys optional as well.
\<close>

record ContentOptionals =
  description_in :: "string option option"
  videoUrl_in :: "string option option"
  thumbnailHorizontal_in :: "string option option"
  thumbnailVertical_in :: "string option option"
  year_in :: "int option option"
  duration_in :: "string option option"
  rating_in :: "string option option"
  genres_in :: "string list option option"
  cast_in :: "string list option option"
  director_in :: "string option option"
  isActive_in :: "bool option option"
  isFeatured_in :: "bool option option"

record InsertContent = ContentOptionals +
  title_in :: string
  type_in :: string

record PartialInsertContent = ContentOptionals +
  title_opt :: "string option"
  type_opt :: "string option"

record InsertEpisode =
  contentId_ie :: string
  title_ie :: string
  description_ie :: "string option option"
  episodeNumber_ie :: int
  seasonNumber_ie :: "int option option"
  videoUrl_ie :: string
  thumbnail_ie :: "string option option"
  duration_ie :: "string option option"

record InsertFavorite =
  userId_if :: string
  contentId_if :: string

text \<open>
  A key that is present (null included) sets the column; an absent key leaves the
  column's default on insert and the old value on update.
\<close>

fun given :: "'a option option \<Rightarrow> 'a option \<Rightarrow> 'a option" where
  "given None old = old"
| "given (Some v) old = v"

fun given_req :: "'a option \<Rightarrow> 'a \<Rightarrow> 'a" where
  "given_req None old = old"
| "given_req (Some v) old = v"

text \<open>Whether the store takes the value of a key, when the key carries one.\<close>

fun text_ok :: "string option option \<Rightarrow> bool" where
  "text_ok (Some (Some s)) = bindable s"
| "text_ok _ = True"

fun texts_ok :: "string list option option \<Rightarrow> bool" where
  "texts_ok (Some (Some xs)) = list_all bindable xs"
| "texts_ok _ = True"

fun int_ok :: "int option option \<Rightarrow> bool" where
  "int_ok (Some (Some n)) = int4 n"
| "int_ok _ = True"

definition optionals_texts_ok :: "'a ContentOptionals_scheme \<Rightarrow> bool" where
  "optionals_texts_ok v \<longleftrightarrow>
     text_ok (description_in v) \<and> text_ok (videoUrl_in v) \<and>
     text_ok (thumbnailHorizontal_in v) \<and> text_ok (thumbnailVertical_in v) \<and>
     text_ok (duration_in v) \<and> text_ok (rating_in v) \<and> texts_ok (genres_in v) \<and>
     texts_ok (cast_in v) \<and> text_ok (director_in v)"

section \<open>Pattern matching of the store: \<open>ILIKE\<close>\<close>

text \<open>
  \<open>LIKE\<close> reads its pattern character by character: \<open>%\<close> stands for any run of
  characters, \<open>_\<close> for any one character, a backslash takes the next character
  literally, anything else stands for itself. A pattern that ends in a lone backslash
  matches nothing here (the store rejects it; the pattern of \<open>searchContent\<close> always
  ends in \<open>%\<close>, so it never does).
\<close>

fun like_match :: "string \<Rightarrow> string \<Rightarrow> bool" where
  "like_match [] s = (s = [])"
| "like_match (p # ps) [] = (p = CHR ''%'' \<and> like_match ps [])"
| "like_match (p # ps) (c # cs) =
     (if p = CHR ''%'' then like_match ps (c # cs) \<or> like_match (p # ps) cs
      else if p = CHR ''_'' then like_match ps cs
      else if p = CHR 0x5C then
        (case ps of [] \<Rightarrow> False | q # qs \<Rightarrow> q = c \<and> like_match qs cs)
      else p = c \<and> like_match ps cs)"

text \<open>
  \<open>ILIKE\<close> folds the case of both sides. The folding here is that of the ASCII
  letters; how the store folds letters outside ASCII depends on its locale and is not
  modelled, so what is proved of a search is proved of ASCII titles and queries.
\<close>

definition to_lower :: "char \<Rightarrow> char" where
  "to_lower c =
     (case map_of (zip ''ABCDEFGHIJKLMNOPQRSTUVWXYZ'' ''abcdefghijklmnopqrstuvwxyz'') c of
        None \<Rightarrow> c
      | Some l \<Rightarrow> l)"

definition ilike :: "string \<Rightarrow> string \<Rightarrow> bool" where
  "ilike s pat = like_match (map to_lower pat) (map to_lower s)"

section \<open>Data access layer (storage.ts)\<close>

text \<open>
  Each method is one statement against the store. \<open>eq(column, true)\<close> on a nullable
  boolean column holds for the value true only, not for NULL. \<open>orderBy(desc(column))\<close>
  puts NULLs first, then the greatest value; rows that tie keep their physical order.
  \<open>upsertUser\<close>, \<open>updateEpisode\<close> and \<open>deleteEpisode\<close> are called by no route of
  routes.ts and are left out.

  A method that only reads or deletes is modelled as what its statement computes; that
  the store refuses a string parameter with a NUL character is \<open>bind\<close>, applied where
  a handler calls the method. A method that writes values returns the store's refusal
  itself.
\<close>

definition desc :: "int option \<Rightarrow> int option" where
  "desc v = map_option uminus v"

definition getUser :: "db \<Rightarrow> string \<Rightarrow> User option" where
  "getUser d i = first (filter (\<lambda>u. id_u u = i) (users d))"

definition getAllContent :: "db \<Rightarrow> Content list" where
  "getAllContent d =
     sort_key (\<lambda>r. desc (createdAt r)) (filter (\<lambda>r. isActive r = Some True) (content d))"

definition getContentById :: "db \<Rightarrow> string \<Rightarrow> Content option" where
  "getContentById d i =
     first (filter (\<lambda>r. id_c r = i \<and> isActive r = Some True) (content d))"

definition getContentByType :: "db \<Rightarrow> string \<Rightarrow> Content list" where
  "getContentByType d t =
     sort_key (\<lambda>r. desc (createdAt r))
       (filter (\<lambda>r. type_c r = t \<and> isActive r = Some True) (content d))"

definition getFeaturedContent :: "db \<Rightarrow> Content option" where
  "getFeaturedContent d =
     first (sort_key (\<lambda>r. desc (createdAt r))
       (filter (\<lambda>r. isFeatured r = Some True \<and> isActive r = Some True) (content d)))"

definition getPopularContent :: "db \<Rightarrow> Content list" where
  "getPopularContent d =
     take 20 (sort_key (\<lambda>r. desc (viewCount r))
       (filter (\<lambda>r. isActive r = Some True) (content d)))"

definition getNewContent :: "db \<Rightarrow> Content list" where
  "getNewContent d =
     take 20 (sort_key (\<lambda>r. desc (createdAt r))
       (filter (\<lambda>r. isActive r = Some True) (content d)))"

definition searchContent :: "db \<Rightarrow> string \<Rightarrow> Content list" where
  "searchContent d query =
     sort_key (\<lambda>r. desc (createdAt r))
       (filter (\<lambda>r. isActive r = Some True \<and> ilike (title r) (''%'' @ query @ ''%''))
         (content d))"

text \<open>
  \<open>createContent\<close>: one insert. The primary key is the generated identifier, the two
  flags and the counter take their column defaults when the key is absent, the two
  timestamps are the store's clock. The store refuses a text with a NUL character, a
  \<open>year\<close> outside the integer range, a \<open>type\<close> longer than the column's 20
  characters and a duplicate primary key.
\<close>

definition new_content :: "env \<Rightarrow> InsertContent \<Rightarrow> Content" where
  "new_content e v =
     \<lparr>id_c = uuid e,
      title = title_in v,
      description = given (description_in v) None,
      type_c = type_in v,
      videoUrl = given (videoUrl_in v) None,
      thumbnailHorizontal = given (thumbnailHorizontal_in v) None,
      thumbnailVertical = given (thumbnailVertical_in v) None,
      year = given (year_in v) None,
      duration = given (duration_in v) None,
      rating = given (rating_in v) None,
      genres = given (genres_in v) None,
      cast_c = given (cast_in v) None,
      director = given (director_in v) None,
      isActive = given (isActive_in v) (Some True),
      isFeatured = given (isFeatured_in v) (Some False),
      viewCount = Some 0,
      createdAt = Some (db_now e),
      updatedAt = Some (db_now e)\<rparr>"

definition createContent :: "env \<Rightarrow> db \<Rightarrow> InsertContent \<Rightarrow> store_error + Content \<times> db" where
  "createContent e d v =
     (if \<not> (bindable (title_in v) \<and> bindable (type_in v) \<and> optionals_texts_ok v)
      then Inl InvalidText
      else if \<not> int_ok (year_in v) then Inl IntegerOutOfRange
      else if 20 < length (type_in v) then Inl ValueTooLong
      else if uuid e \<in> set (map id_c (content d)) then Inl UniqueViolation
      else Inr (new_content e v, d\<lparr>content := content d @ [new_content e v]\<rparr>))"

text \<open>
  \<open>updateContent\<close>: one update of the rows with that id, whatever their \<open>isActive\<close>.
  The keys present in \<open>data\<close> are set, \<open>updatedAt\<close> is the server's clock; the result is
  the first row the statement returns, or \<open>undefined\<close>. The store refuses a text with
  a NUL character (the id included), a \<open>year\<close> outside the integer range and an
  overlong \<open>type\<close>.
\<close>

definition set_content :: "timestamp \<Rightarrow> PartialInsertContent \<Rightarrow> Content \<Rightarrow> Content" where
  "set_content now v r =
     r\<lparr>title := given_req (title_opt v) (title r),
       description := given (description_in v) (description r),
       type_c := given_req (type_opt v) (type_c r),
       videoUrl := given (videoUrl_in v) (videoUrl r),
       thumbnailHorizontal := given (thumbnailHorizontal_in v) (thumbnailHorizontal r),
       thumbnailVertical := given (thumbnailVertical_in v) (thumbnailVertical r),
       year := given (year_in v) (year r),
       duration := given (duration_in v) (duration r),
       rating := given (rating_in v) (rating r),
       genres := given (genres_in v) (genres r),
       cast_c := given (cast_in v) (cast_c r),
       director := given (director_in v) (director r),
       isActive := given (isActive_in v) (isActive r),
       isFeatured := given (isFeatured_in v) (isFeatured r),
       updatedAt := Some now\<rparr>"

definition type_fits :: "PartialInsertContent \<Rightarrow> bool" where
  "type_fits v = (case type_opt v of None \<Rightarrow> True | Some t \<Rightarrow> length t \<le> 20)"

definition partial_texts_ok :: "PartialInsertContent \<Rightarrow> bool" where
  "partial_texts_ok v \<longleftrightarrow>
     (case title_opt v of None \<Rightarrow> True | Some t \<Rightarrow> bindable t) \<and>
     (case type_opt v of None \<Rightarrow> True | Some t \<Rightarrow> bindable t) \<and> optionals_texts_ok v"

definition updateContent ::
  "env \<Rightarrow> db \<Rightarrow> string \<Rightarrow> PartialInsertContent \<Rightarrow> store_error + Content option \<times> db" where
  "updateContent e d i v =
     (if \<not> (bindable i \<and> partial_texts_ok v) then Inl InvalidText
      else if \<not> int_ok (year_in v) then Inl IntegerOutOfRange
      else if \<not> type_fits v then Inl ValueTooLong
      else Inr (first (map (set_content (js_now e) v) (filter (\<lambda>r. id_c r = i) (content d))),
                d\<lparr>content :=
                    map (\<lambda>r. if id_c r = i then set_content (js_now e) v r else r) (content d)\<rparr>))"

text \<open>
  \<open>deleteContent\<close>: one delete of the rows with that id, whatever their \<open>isActive\<close>;
  the episodes and favorites that reference them go with them (\<open>onDelete: cascade\<close>).
\<close>

definition deleteContent :: "db \<Rightarrow> string \<Rightarrow> db" where
  "deleteContent d i =
     d\<lparr>content := filter (\<lambda>r. id_c r \<noteq> i) (content d),
       episodes := filter (\<lambda>x. contentId_e x \<noteq> i) (episodes d),
       favorites := filter (\<lambda>x. contentId_f x \<noteq> i) (favorites d)\<rparr>"

text \<open>
  \<open>incrementViewCount\<close>: one update, \<open>view_count = view_count + 1\<close>, computed by the
  store on the rows with that id (NULL plus one is NULL). The sum has to fit the
  column: on a row whose counter is at the greatest integer the store raises, and the
  statement changes nothing.
\<close>

definition incrementViewCount :: "db \<Rightarrow> string \<Rightarrow> store_error + db" where
  "incrementViewCount d i =
     (if \<not> bindable i then Inl InvalidText
      else if list_ex (\<lambda>r. id_c r = i \<and> viewCount r = Some 2147483647) (content d)
      then Inl IntegerOutOfRange
      else Inr (d\<lparr>content :=
             map (\<lambda>r. if id_c r = i
                      then r\<lparr>viewCount := map_option (\<lambda>n. n + 1) (viewCount r)\<rparr> else r)
               (content d)\<rparr>))"

subsection \<open>Episodes\<close>

text \<open>Ascending order puts NULLs last.\<close>

definition asc :: "int option \<Rightarrow> nat \<times> int" where
  "asc v = (case v of None \<Rightarrow> (1, 0) | Some n \<Rightarrow> (0, n))"

definition getEpisodesByContentId :: "db \<Rightarrow> string \<Rightarrow> Episode list" where
  "getEpisodesByContentId d i =
     sort_key (\<lambda>x. (asc (seasonNumber x), episodeNumber x))
       (filter (\<lambda>x. contentId_e x = i) (episodes d))"

definition new_episode :: "env \<Rightarrow> InsertEpisode \<Rightarrow> Episode" where
  "new_episode e v =
     \<lparr>id_e = uuid e,
      contentId_e = contentId_ie v,
      title_e = title_ie v,
      description_e = given (description_ie v) None,
      episodeNumber = episodeNumber_ie v,
      seasonNumber = given (seasonNumber_ie v) (Some 1),
      videoUrl_e = videoUrl_ie v,
      thumbnail = given (thumbnail_ie v) None,
      duration_e = given (duration_ie v) None,
      createdAt_e = Some (db_now e)\<rparr>"

definition createEpisode :: "env \<Rightarrow> db \<Rightarrow> InsertEpisode \<Rightarrow> store_error + Episode \<times> db" where
  "createEpisode e d v =
     (if \<not> (bindable (contentId_ie v) \<and> bindable (title_ie v) \<and> bindable (videoUrl_ie v) \<and>
             text_ok (description_ie v) \<and> text_ok (thumbnail_ie v) \<and> text_ok (duration_ie v))
      then Inl InvalidText
      else if \<not> (int4 (episodeNumber_ie v) \<and> int_ok (seasonNumber_ie v))
      then Inl IntegerOutOfRange
      else if uuid e \<in> set (map id_e (episodes d)) then Inl UniqueViolation
      else if contentId_ie v \<notin> set (map id_c (content d)) then Inl ForeignKeyViolation
      else Inr (new_episode e v, d\<lparr>episodes := episodes d @ [new_episode e v]\<rparr>))"

subsection \<open>Favorites\<close>

definition getUserFavorites :: "db \<Rightarrow> string \<Rightarrow> Content list" where
  "getUserFavorites d u =
     [r. x \<leftarrow> favorites d, r \<leftarrow> content d,
         contentId_f x = id_c r \<and> userId_f x = u \<and> isActive r = Some True]"

definition new_favorite :: "env \<Rightarrow> InsertFavorite \<Rightarrow> Favorite" where
  "new_favorite e v =
     \<lparr>id_f = uuid e, userId_f = userId_if v, contentId_f = contentId_if v,
      createdAt_f = Some (db_now e)\<rparr>"

text \<open>
  \<open>addToFavorites\<close>: one insert, with no look at the rows already there. The store
  refuses a user or a content item that does not exist (the two references); an id
  with a NUL character is the id of no row.
\<close>

definition addToFavorites :: "env \<Rightarrow> db \<Rightarrow> InsertFavorite \<Rightarrow> store_error + Favorite \<times> db" where
  "addToFavorites e d v =
     (if uuid e \<in> set (map id_f (favorites d)) then Inl UniqueViolation
      else if userId_if v \<notin> set (map id_u (users d)) then Inl ForeignKeyViolation
      else if contentId_if v \<notin> set (map id_c (content d)) then Inl ForeignKeyViolation
      else Inr (new_favorite e v, d\<lparr>favorites := favorites d @ [new_favorite e v]\<rparr>))"

definition removeFromFavorites :: "db \<Rightarrow> string \<Rightarrow> string \<Rightarrow> db" where
  "removeFromFavorites d u c =
     d\<lparr>favorites := filter (\<lambda>x. \<not> (userId_f x = u \<and> contentId_f x = c)) (favorites d)\<rparr>"

definition isFavorite :: "db \<Rightarrow> string \<Rightarrow> string \<Rightarrow> bool" where
  "isFavorite d u c =
     (first (filter (\<lambda>x. userId_f x = u \<and> contentId_f x = c) (favorites d)) \<noteq> None)"

section \<open>Validation against the insert schemas\<close>

text \<open>
  \<open>createInsertSchema\<close> derives an object schema from the columns of a table, key by
  key in the order of the columns: a text column is a string, a \<open>varchar\<close> with a
  length a string of at most that length, an integer column a whole number in the
  32-bit range, a boolean column a boolean, a text array an array of strings. A
  \<open>notNull\<close> column without a default is required; any other column is optional and
  may be null. Keys the schema does not name (\<open>password\<close>, and the omitted \<open>id\<close>,
  \<open>viewCount\<close>, \<open>createdAt\<close>, \<open>updatedAt\<close>) are dropped from the parsed value. A
  failed parse throws a \<open>ZodError\<close> that lists the issues, each with the key it is
  about; the root of the payload has the empty path.
\<close>

datatype issue = Required string | InvalidType string | TooBig string | TooSmall string

datatype jtype = TString | TVarchar nat | TInteger | TBoolean | TStrings

fun is_string :: "json \<Rightarrow> bool" where
  "is_string (JStr s) = True"
| "is_string _ = False"

text \<open>The issue, if any, that a value of key \<open>k\<close> has against a type.\<close>

fun type_issues :: "jtype \<Rightarrow> string \<Rightarrow> json \<Rightarrow> issue list" where
  "type_issues TString k j = (if is_string j then [] else [InvalidType k])"
| "type_issues (TVarchar n) k j =
     (case j of JStr s \<Rightarrow> if length s \<le> n then [] else [TooBig k] | _ \<Rightarrow> [InvalidType k])"
| "type_issues TInteger k j =
     (case j of
        JNum n \<Rightarrow>
          if n < - 2147483648 then [TooSmall k]
          else if 2147483647 < n then [TooBig k] else []
      | _ \<Rightarrow> [InvalidType k])"
| "type_issues TBoolean k j = (case j of JBool b \<Rightarrow> [] | _ \<Rightarrow> [InvalidType k])"
| "type_issues TStrings k j =
     (case j of
        JArr xs \<Rightarrow> if list_all is_string xs then [] else [InvalidType k]
      | _ \<Rightarrow> [InvalidType k])"

definition required :: "jtype \<Rightarrow> string \<Rightarrow> json \<Rightarrow> issue list" where
  "required t k j =
     (case property j k of
        None \<Rightarrow> [Required k]
      | Some v \<Rightarrow> type_issues t k v)"

definition optional :: "jtype \<Rightarrow> string \<Rightarrow> json \<Rightarrow> issue list" where
  "optional t k j =
     (case property j k of
        None \<Rightarrow> []
      | Some v \<Rightarrow> type_issues t k v)"

definition nullish :: "jtype \<Rightarrow> string \<Rightarrow> json \<Rightarrow> issue list" where
  "nullish t k j =
     (case property j k of
        None \<Rightarrow> []
      | Some JNull \<Rightarrow> []
      | Some v \<Rightarrow> type_issues t k v)"

definition is_object :: "json \<Rightarrow> issue list" where
  "is_object j = (case j of JObj kvs \<Rightarrow> [] | _ \<Rightarrow> [InvalidType []])"

text \<open>Reading a checked value; JSON null reads as NULL.\<close>

fun to_string :: "json \<Rightarrow> string option" where
  "to_string (JStr s) = Some s"
| "to_string _ = None"

fun to_int :: "json \<Rightarrow> int option" where
  "to_int (JNum n) = Some n"
| "to_int _ = None"

fun to_bool :: "json \<Rightarrow> bool option" where
  "to_bool (JBool b) = Some b"
| "to_bool _ = None"

fun to_strings :: "json \<Rightarrow> string list option" where
  "to_strings (JArr xs) = Some (map (\<lambda>x. case x of JStr s \<Rightarrow> s | _ \<Rightarrow> []) xs)"
| "to_strings _ = None"

text \<open>A required key, read once the payload has passed (the default is never taken).\<close>

definition req_string :: "json \<Rightarrow> string \<Rightarrow> string" where
  "req_string j k = (case Option.bind (property j k) to_string of Some s \<Rightarrow> s | None \<Rightarrow> [])"

definition req_int :: "json \<Rightarrow> string \<Rightarrow> int" where
  "req_int j k = (case Option.bind (property j k) to_int of Some n \<Rightarrow> n | None \<Rightarrow> 0)"

definition optionals_of :: "json \<Rightarrow> ContentOptionals" where
  "optionals_of j =
     \<lparr>description_in = map_option to_string (property j ''description''),
      videoUrl_in = map_option to_string (property j ''videoUrl''),
      thumbnailHorizontal_in = map_option to_string (property j ''thumbnailHorizontal''),
      thumbnailVertical_in = map_option to_string (property j ''thumbnailVertical''),
      year_in = map_option to_int (property j ''year''),
      duration_in = map_option to_string (property j ''duration''),
      rating_in = map_option to_string (property j ''rating''),
      genres_in = map_option to_strings (property j ''genres''),
      cast_in = map_option to_strings (property j ''cast''),
      director_in = map_option to_string (property j ''director''),
      isActive_in = map_option to_bool (property j ''isActive''),
      isFeatured_in = map_option to_bool (property j ''isFeatured'')\<rparr>"

text \<open>
  The keys of the content schema in the order of the columns; \<open>title\<close> and \<open>type\<close> are
  checked by \<open>key\<close>, which is \<open>required\<close> for \<open>insertContentSchema\<close> and \<open>optional\<close>
  for its \<open>partial()\<close>.
\<close>

definition content_issues ::
  "(jtype \<Rightarrow> string \<Rightarrow> json \<Rightarrow> issue list) \<Rightarrow> json \<Rightarrow> issue list" where
  "content_issues key j =
     key TString ''title'' j @ nullish TString ''description'' j @
     key (TVarchar 20) ''type'' j @ nullish TString ''videoUrl'' j @
     nullish TString ''thumbnailHorizontal'' j @ nullish TString ''thumbnailVertical'' j @
     nullish TInteger ''year'' j @ nullish TString ''duration'' j @
     nullish TString ''rating'' j @ nullish TStrings ''genres'' j @
     nullish TStrings ''cast'' j @ nullish TString ''director'' j @
     nullish TBoolean ''isActive'' j @ nullish TBoolean ''isFeatured'' j"

text \<open>\<open>insertContentSchema.parse\<close>\<close>

definition insertContentSchema_issues :: "json \<Rightarrow> issue list" where
  "insertContentSchema_issues j =
     (if is_object j \<noteq> [] then is_object j else content_issues required j)"

definition insertContentSchema_parse :: "json \<Rightarrow> issue list + InsertContent" where
  "insertContentSchema_parse j =
     (if insertContentSchema_issues j \<noteq> [] then Inl (insertContentSchema_issues j)
      else Inr (ContentOptionals.extend (optionals_of j)
                  \<lparr>title_in = req_string j ''title'', type_in = req_string j ''type''\<rparr>))"

text \<open>\<open>insertContentSchema.partial().parse\<close>\<close>

definition partialContentSchema_issues :: "json \<Rightarrow> issue list" where
  "partialContentSchema_issues j =
     (if is_object j \<noteq> [] then is_object j else content_issues optional j)"

definition partialContentSchema_parse :: "json \<Rightarrow> issue list + PartialInsertContent" where
  "partialContentSchema_parse j =
     (if partialContentSchema_issues j \<noteq> [] then Inl (partialContentSchema_issues j)
      else Inr (ContentOptionals.extend (optionals_of j)
                  \<lparr>title_opt = Option.bind (property j ''title'') to_string,
                   type_opt = Option.bind (property j ''type'') to_string\<rparr>))"

text \<open>\<open>insertEpisodeSchema.parse\<close>\<close>

definition insertEpisodeSchema_issues :: "json \<Rightarrow> issue list" where
  "insertEpisodeSchema_issues j =
     (if is_object j \<noteq> [] then is_object j
      else required TString ''contentId'' j @ required TString ''title'' j @
           nullish TString ''description'' j @ required TInteger ''episodeNumber'' j @
           nullish TInteger ''seasonNumber'' j @ required TString ''videoUrl'' j @
           nullish TString ''thumbnail'' j @ nullish TString ''duration'' j)"

definition insertEpisodeSchema_parse :: "json \<Rightarrow> issue list + InsertEpisode" where
  "insertEpisodeSchema_parse j =
     (if insertEpisodeSchema_issues j \<noteq> [] then Inl (insertEpisodeSchema_issues j)
      else Inr \<lparr>contentId_ie = req_string j ''contentId'',
                title_ie = req_string j ''title'',
                description_ie = map_option to_string (property j ''description''),
                episodeNumber_ie = req_int j ''episodeNumber'',
                seasonNumber_ie = map_option to_int (property j ''seasonNumber''),
                videoUrl_ie = req_string j ''videoUrl'',
                thumbnail_ie = map_option to_string (property j ''thumbnail''),
                duration_ie = map_option to_string (property j ''duration'')\<rparr>)"

text \<open>\<open>insertFavoriteSchema.parse\<close>\<close>

definition insertFavoriteSchema_issues :: "json \<Rightarrow> issue list" where
  "insertFavoriteSchema_issues j =
     (if is_object j \<noteq> [] then is_object j
      else required TString ''userId'' j @ required TString ''contentId'' j)"

definition insertFavoriteSchema_parse :: "json \<Rightarrow> issue list + InsertFavorite" where
  "insertFavoriteSchema_parse j =
     (if insertFavoriteSchema_issues j \<noteq> [] then Inl (insertFavoriteSchema_issues j)
      else Inr \<lparr>userId_if = req_string j ''userId'',
                contentId_if = req_string j ''contentId''\<rparr>)"

section \<open>Request handlers (routes.ts)\<close>

text \<open>
  What a handler sends: the status and the JSON it is given (\<open>res.json(undefined)\<close>
  and \<open>res.send()\<close> send no body).
\<close>

datatype payload =
    NoBody
  | NullJ
  | UserJ User
  | ContentJ Content
  | ContentsJ "Content list"
  | EpisodeJ Episode
  | EpisodesJ "Episode list"
  | FavoriteJ Favorite
  | FavoritesJ "Content list"
  | IsFavoriteJ bool
  | SuccessJ bool
  | MessageJ string
  | InvalidJ string "issue list"

text \<open>The methods of the data access layer, as a handler calls them.\<close>

datatype call =
    Call_getUser
  | Call_getAllContent
  | Call_getContentById
  | Call_getContentByType
  | Call_getFeaturedContent
  | Call_getPopularContent
  | Call_getNewContent
  | Call_searchContent
  | Call_createContent
  | Call_updateContent
  | Call_deleteContent
  | Call_incrementViewCount
  | Call_getEpisodesByContentId
  | Call_createEpisode
  | Call_getUserFavorites
  | Call_addToFavorites
  | Call_removeFromFavorites
  | Call_isFavorite

text \<open>
  The outcome of a request: the response, the store the request leaves, and the
  methods of the data access layer it called, in order.
\<close>

record outcome =
  status :: nat
  body :: payload
  store :: db
  calls :: "call list"

definition reply :: "nat \<Rightarrow> payload \<Rightarrow> db \<Rightarrow> call list \<Rightarrow> outcome" where
  "reply st b d cs = \<lparr>status = st, body = b, store = d, calls = cs\<rparr>"

text \<open>A value of the query string: a string, or an array or object (always truthy).\<close>

datatype qval = QString string | QOther

fun q_truthy :: "qval option \<Rightarrow> bool" where
  "q_truthy None = False"
| "q_truthy (Some (QString s)) = (s \<noteq> [])"
| "q_truthy (Some QOther) = True"

text \<open>\<open>typeof v === 'string'\<close>, and the string that \<open>v\<close> then is.\<close>

fun is_qstring :: "qval option \<Rightarrow> bool" where
  "is_qstring (Some (QString s)) = True"
| "is_qstring _ = False"

fun qstring :: "qval option \<Rightarrow> string" where
  "qstring (Some (QString s)) = s"
| "qstring _ = []"

record Query =
  type_q :: "qval option"
  featured_q :: "qval option"
  popular_q :: "qval option"
  new_q :: "qval option"
  search_q :: "qval option"

text \<open>
  The requests that reach a handler of \<open>registerRoutes\<close>, with what each handler
  reads of them. (A path parameter is never empty: without it the path is that of
  another route.)
\<close>

datatype request =
    Get_auth_user
  | Get_content Query
  | Get_content_id string
  | Get_content_id_episodes string
  | Get_favorites
  | Post_favorites json
  | Delete_favorites string
  | Get_favorites_check string
  | Post_admin_verify json
  | Post_admin_content json
  | Put_admin_content string json
  | Delete_admin_content string json
  | Post_admin_episodes json

definition ADMIN_PASSWORD :: string where
  "ADMIN_PASSWORD = ''cla-SAMU20''"

text \<open>
  Modelled from the spec: \<open>isAuthenticated\<close> lives in replitAuth, which is not among the
  sources. The spec has a missing session answered with 401; with a session, the
  handler runs with the user id of the session (\<open>req.user.claims.sub\<close>).
\<close>

definition isAuthenticated :: "string option \<Rightarrow> (string \<Rightarrow> db \<Rightarrow> outcome) \<Rightarrow> db \<Rightarrow> outcome" where
  "isAuthenticated session handler d =
     (case session of
        None \<Rightarrow> reply 401 (MessageJ ''Unauthorized'') d []
      | Some userId \<Rightarrow> handler userId d)"

definition checkAdminPassword :: "json \<Rightarrow> (db \<Rightarrow> outcome) \<Rightarrow> db \<Rightarrow> outcome" where
  "checkAdminPassword reqBody handler d =
     (if property reqBody ''password'' \<noteq> Some (JStr ADMIN_PASSWORD)
      then reply 401 (MessageJ ''Invalid admin password'') d []
      else handler d)"

text \<open>\<open>req.body.content || req.body\<close>\<close>

definition body_or :: "json \<Rightarrow> string \<Rightarrow> json" where
  "body_or reqBody k =
     (if truthy (property reqBody k) then the (property reqBody k) else reqBody)"

text \<open>
  Every handler runs its calls inside a \<open>try\<close>; whatever the store raises is answered
  with 500 and a message.
\<close>

definition get_auth_user :: "string \<Rightarrow> db \<Rightarrow> outcome" where
  "get_auth_user userId d =
     (case bind [userId] (getUser d userId) of
        Inl err \<Rightarrow> reply 500 (MessageJ ''Failed to fetch user'') d [Call_getUser]
      | Inr u \<Rightarrow>
          reply 200 (case u of None \<Rightarrow> NoBody | Some u' \<Rightarrow> UserJ u') d [Call_getUser])"

definition get_content :: "Query \<Rightarrow> db \<Rightarrow> outcome" where
  "get_content q d =
     (if q_truthy (featured_q q) then
        reply 200 (case getFeaturedContent d of None \<Rightarrow> NullJ | Some r \<Rightarrow> ContentJ r) d
          [Call_getFeaturedContent]
      else if q_truthy (popular_q q) then
        reply 200 (ContentsJ (getPopularContent d)) d [Call_getPopularContent]
      else if q_truthy (new_q q) then
        reply 200 (ContentsJ (getNewContent d)) d [Call_getNewContent]
      else if q_truthy (search_q q) \<and> is_qstring (search_q q) then
        (case bind [qstring (search_q q)] (searchContent d (qstring (search_q q))) of
           Inl err \<Rightarrow> reply 500 (MessageJ ''Failed to fetch content'') d [Call_searchContent]
         | Inr rows \<Rightarrow> reply 200 (ContentsJ rows) d [Call_searchContent])
      else if q_truthy (type_q q) \<and>
              (type_q q = Some (QString ''movie'') \<or> type_q q = Some (QString ''series'')) then
        reply 200 (ContentsJ (getContentByType d (qstring (type_q q)))) d
          [Call_getContentByType]
      else
        reply 200 (ContentsJ (getAllContent d)) d [Call_getAllContent])"

text \<open>
  \<open>GET /api/content/:id\<close> awaits two statements, with no transaction around them:
  the read of the row and, when there is one, the increment; then it sends the row
  that was read. Statements of other requests can run between the two.
  \<open>get_content_id_after_read\<close> is the handler from the answer of the read onwards,
  on the store as it is by then; \<open>get_content_id\<close> is the whole handler when nothing
  runs in between.
\<close>

definition get_content_id_after_read :: "string \<Rightarrow> Content option \<Rightarrow> db \<Rightarrow> outcome" where
  "get_content_id_after_read i found d =
     (case found of
        None \<Rightarrow> reply 404 (MessageJ ''Content not found'') d [Call_getContentById]
      | Some r \<Rightarrow>
          (case incrementViewCount d i of
             Inl err \<Rightarrow>
               reply 500 (MessageJ ''Failed to fetch content'') d
                 [Call_getContentById, Call_incrementViewCount]
           | Inr d' \<Rightarrow>
               reply 200 (ContentJ r) d' [Call_getContentById, Call_incrementViewCount]))"

definition get_content_id :: "string \<Rightarrow> db \<Rightarrow> outcome" where
  "get_content_id i d =
     (case bind [i] (getContentById d i) of
        Inl err \<Rightarrow> reply 500 (MessageJ ''Failed to fetch content'') d [Call_getContentById]
      | Inr found \<Rightarrow> get_content_id_after_read i found d)"

definition get_content_id_episodes :: "string \<Rightarrow> db \<Rightarrow> outcome" where
  "get_content_id_episodes i d =
     (case bind [i] (getEpisodesByContentId d i) of
        Inl err \<Rightarrow>
          reply 500 (MessageJ ''Failed to fetch episodes'') d [Call_getEpisodesByContentId]
      | Inr rows \<Rightarrow> reply 200 (EpisodesJ rows) d [Call_getEpisodesByContentId])"

definition get_favorites :: "string \<Rightarrow> db \<Rightarrow> outcome" where
  "get_favorites userId d =
     (case bind [userId] (getUserFavorites d userId) of
        Inl err \<Rightarrow> reply 500 (MessageJ ''Failed to fetch favorites'') d [Call_getUserFavorites]
      | Inr rows \<Rightarrow> reply 200 (FavoritesJ rows) d [Call_getUserFavorites])"

text \<open>
  \<open>POST /api/favorites\<close>: the body, with the session's user id written over its
  \<open>userId\<close>, is parsed; whatever is thrown inside the \<open>try\<close>, by the parse or by the
  store, is answered with 500.
\<close>

definition with_userId :: "json \<Rightarrow> string \<Rightarrow> json" where
  "with_userId reqBody userId =
     JObj ((case reqBody of JObj kvs \<Rightarrow> kvs | _ \<Rightarrow> []) @ [(''userId'', JStr userId)])"

definition post_favorites :: "env \<Rightarrow> json \<Rightarrow> string \<Rightarrow> db \<Rightarrow> outcome" where
  "post_favorites e reqBody userId d =
     (case insertFavoriteSchema_parse (with_userId reqBody userId) of
        Inl issues \<Rightarrow> reply 500 (MessageJ ''Failed to add to favorites'') d []
      | Inr v \<Rightarrow>
          (case addToFavorites e d \<lparr>userId_if = userId, contentId_if = contentId_if v\<rparr> of
             Inl err \<Rightarrow> reply 500 (MessageJ ''Failed to add to favorites'') d [Call_addToFavorites]
           | Inr (fav, d') \<Rightarrow> reply 201 (FavoriteJ fav) d' [Call_addToFavorites]))"

definition delete_favorites :: "string \<Rightarrow> string \<Rightarrow> db \<Rightarrow> outcome" where
  "delete_favorites contentId userId d =
     (case bind [userId, contentId] (removeFromFavorites d userId contentId) of
        Inl err \<Rightarrow>
          reply 500 (MessageJ ''Failed to remove from favorites'') d [Call_removeFromFavorites]
      | Inr d' \<Rightarrow> reply 204 NoBody d' [Call_removeFromFavorites])"

definition get_favorites_check :: "string \<Rightarrow> string \<Rightarrow> db \<Rightarrow> outcome" where
  "get_favorites_check contentId userId d =
     (case bind [userId, contentId] (isFavorite d userId contentId) of
        Inl err \<Rightarrow> reply 500 (MessageJ ''Failed to check favorite status'') d [Call_isFavorite]
      | Inr b \<Rightarrow> reply 200 (IsFavoriteJ b) d [Call_isFavorite])"

subsection \<open>Admin routes\<close>

definition post_admin_verify :: "json \<Rightarrow> db \<Rightarrow> outcome" where
  "post_admin_verify reqBody d =
     (if property reqBody ''password'' = Some (JStr ADMIN_PASSWORD)
      then reply 200 (SuccessJ True) d []
      else reply 401 (MessageJ ''Invalid admin password'') d [])"

definition post_admin_content :: "env \<Rightarrow> json \<Rightarrow> db \<Rightarrow> outcome" where
  "post_admin_content e reqBody d =
     (case insertContentSchema_parse (body_or reqBody ''content'') of
        Inl issues \<Rightarrow> reply 400 (InvalidJ ''Invalid content data'' issues) d []
      | Inr v \<Rightarrow>
          (case createContent e d v of
             Inl err \<Rightarrow> reply 500 (MessageJ ''Failed to create content'') d [Call_createContent]
           | Inr (r, d') \<Rightarrow> reply 201 (ContentJ r) d' [Call_createContent]))"

definition put_admin_content :: "env \<Rightarrow> string \<Rightarrow> json \<Rightarrow> db \<Rightarrow> outcome" where
  "put_admin_content e i reqBody d =
     (case partialContentSchema_parse (body_or reqBody ''content'') of
        Inl issues \<Rightarrow> reply 400 (InvalidJ ''Invalid content data'' issues) d []
      | Inr v \<Rightarrow>
          (case updateContent e d i v of
             Inl err \<Rightarrow> reply 500 (MessageJ ''Failed to update content'') d [Call_updateContent]
           | Inr (r, d') \<Rightarrow>
               reply 200 (case r of None \<Rightarrow> NoBody | Some r' \<Rightarrow> ContentJ r') d'
                 [Call_updateContent]))"

definition delete_admin_content :: "string \<Rightarrow> db \<Rightarrow> outcome" where
  "delete_admin_content i d =
     (case bind [i] (deleteContent d i) of
        Inl err \<Rightarrow> reply 500 (MessageJ ''Failed to delete content'') d [Call_deleteContent]
      | Inr d' \<Rightarrow> reply 204 NoBody d' [Call_deleteContent])"

definition post_admin_episodes :: "env \<Rightarrow> json \<Rightarrow> db \<Rightarrow> outcome" where
  "post_admin_episodes e reqBody d =
     (case insertEpisodeSchema_parse (body_or reqBody ''episode'') of
        Inl issues \<Rightarrow> reply 400 (InvalidJ ''Invalid episode data'' issues) d []
      | Inr v \<Rightarrow>
          (case createEpisode e d v of
             Inl err \<Rightarrow> reply 500 (MessageJ ''Failed to create episode'') d [Call_createEpisode]
           | Inr (x, d') \<Rightarrow> reply 201 (EpisodeJ x) d' [Call_createEpisode]))"

text \<open>
  The routes of \<open>registerRoutes\<close>, each behind the middleware it is registered with.
  \<open>session\<close> is the user id of the request's session, if it has one.
\<close>

fun handle :: "env \<Rightarrow> string option \<Rightarrow> request \<Rightarrow> db \<Rightarrow> outcome" where
  "handle e session Get_auth_user d = isAuthenticated session get_auth_user d"
| "handle e session (Get_content q) d = get_content q d"
| "handle e session (Get_content_id i) d = get_content_id i d"
| "handle e session (Get_content_id_episodes i) d = get_content_id_episodes i d"
| "handle e session Get_favorites d = isAuthenticated session get_favorites d"
| "handle e session (Post_favorites b) d = isAuthenticated session (post_favorites e b) d"
| "handle e session (Delete_favorites c) d = isAuthenticated session (delete_favorites c) d"
| "handle e session (Get_favorites_check c) d =
     isAuthenticated session (get_favorites_check c) d"
| "handle e session (Post_admin_verify b) d = post_admin_verify b d"
| "handle e session (Post_admin_content b) d =
     checkAdminPassword b (post_admin_content e b) d"
| "handle e session (Put_admin_content i b) d =
     checkAdminPassword b (put_admin_content e i b) d"
| "handle e session (Delete_admin_content i b) d =
     checkAdminPassword b (delete_admin_content i) d"
| "handle e session (Post_admin_episodes b) d =
     checkAdminPassword b (post_admin_episodes e b) d"


section \<open>Stores the layer can reach, and example data\<close>

text \<open>
  The primary key keeps the ids of the content rows distinct. No statement of the layer
  writes NULL to \<open>viewCount\<close> or \<open>createdAt\<close>: the insert schema omits both keys, an
  insert fills in the column defaults, and the only update of the counter adds one.
  \<open>wf\<close> collects these facts; the empty store has them and every request keeps them
  (\<open>wf_empty_db\<close>, \<open>handle_wf\<close>).
\<close>

definition wf :: "db \<Rightarrow> bool" where
  "wf d \<longleftrightarrow>
     distinct (map id_c (content d)) \<and>
     list_all (\<lambda>r. viewCount r \<noteq> None \<and> createdAt r \<noteq> None) (content d)"

text \<open>
  \<open>N\<close> calls of \<open>incrementViewCount\<close> with the same id, one after the other, up to the
  first that raises.
\<close>

primrec incrementViewCount_times :: "nat \<Rightarrow> db \<Rightarrow> string \<Rightarrow> store_error + db" where
  "incrementViewCount_times 0 d i = Inr d"
| "incrementViewCount_times (Suc k) d i =
     (case incrementViewCount d i of
        Inl err \<Rightarrow> Inl err
      | Inr d' \<Rightarrow> incrementViewCount_times k d' i)"

text \<open>
  The words of the specification for the search: the title contains the query as a
  substring, letter case aside.
\<close>

definition contains_ci :: "string \<Rightarrow> string \<Rightarrow> bool" where
  "contains_ci s query = sublist (map to_lower query) (map to_lower s)"

text \<open>The characters that \<open>LIKE\<close> does not take literally.\<close>

definition wildcard :: "char \<Rightarrow> bool" where
  "wildcard c \<longleftrightarrow> c = CHR ''%'' \<or> c = CHR ''_'' \<or> c = CHR 0x5C"

text \<open>Rows, stores and request bodies that the examples below run on.\<close>

definition example_row ::
  "string \<Rightarrow> string \<Rightarrow> bool option \<Rightarrow> bool option \<Rightarrow> int \<Rightarrow> timestamp \<Rightarrow> Content" where
  "example_row i t act feat n at =
     \<lparr>id_c = i, title = t, description = None, type_c = ''movie'', videoUrl = None,
      thumbnailHorizontal = None, thumbnailVertical = None, year = None, duration = None,
      rating = None, genres = None, cast_c = None, director = None, isActive = act,
      isFeatured = feat, viewCount = Some n, createdAt = Some at, updatedAt = Some at\<rparr>"

definition row_c1 :: Content where
  "row_c1 = example_row ''c1'' ''Alien'' (Some True) (Some True) 3 10"

definition row_c2 :: Content where
  "row_c2 = example_row ''c2'' ''Brazil'' (Some False) (Some True) 8 20"

definition row_c3 :: Content where
  "row_c3 = example_row ''c3'' ''Casablanca'' (Some True) (Some True) 5 30"

text \<open>An active row whose counter is at the greatest value of its column.\<close>

definition row_c7 :: Content where
  "row_c7 = example_row ''c7'' ''Metropolis'' (Some True) (Some False) 2147483647 50"

definition store_max :: db where
  "store_max = \<lparr>users = [], content = [row_c7], episodes = [], favorites = []\<rparr>"

definition store_a :: db where
  "store_a =
     \<lparr>users = [], content = [row_c1, row_c2, row_c3], episodes = [], favorites = []\<rparr>"

definition env_a :: env where
  "env_a = \<lparr>uuid = ''c9'', db_now = 40, js_now = 41\<rparr>"

definition data_a :: PartialInsertContent where
  "data_a = ContentOptionals.extend (optionals_of (JObj []))
              \<lparr>title_opt = Some ''Brazil (1985)'', type_opt = None\<rparr>"

definition user_a :: User where
  "user_a = \<lparr>id_u = ''u1'', email_u = None, firstName_u = None, lastName_u = None,
             profileImageUrl_u = None, createdAt_u = Some 1, updatedAt_u = Some 1\<rparr>"

text \<open>A store in which one user has the same content item as a favorite twice.\<close>

definition store_b :: db where
  "store_b =
     \<lparr>users = [user_a],
      content = [row_c1],
      episodes = [],
      favorites =
        [\<lparr>id_f = ''f1'', userId_f = ''u1'', contentId_f = ''c1'', createdAt_f = Some 11\<rparr>,
         \<lparr>id_f = ''f2'', userId_f = ''u1'', contentId_f = ''c1'', createdAt_f = Some 12\<rparr>]\<rparr>"

text \<open>A well-formed content payload under a wrong password.\<close>

definition body_a :: json where
  "body_a = JObj [(''password'', JStr ''guess''), (''title'', JStr ''Dune''),
                  (''type'', JStr ''movie'')]"

text \<open>Payloads under the right password that try to set the counter.\<close>

definition body_b :: json where
  "body_b = JObj [(''password'', JStr ''cla-SAMU20''), (''viewCount'', JNum 999),
                  (''title'', JStr ''Aliens'')]"

definition body_c :: json where
  "body_c = JObj [(''password'', JStr ''cla-SAMU20''), (''viewCount'', JNum 999),
                  (''title'', JStr ''Dune''), (''type'', JStr ''movie'')]"

text \<open>What the two payloads parse to.\<close>

definition data_b :: PartialInsertContent where
  "data_b = ContentOptionals.extend (optionals_of body_b)
              \<lparr>title_opt = Some ''Aliens'', type_opt = None\<rparr>"

definition data_c :: InsertContent where
  "data_c = ContentOptionals.extend (optionals_of body_c)
              \<lparr>title_in = ''Dune'', type_in = ''movie''\<rparr>"


section \<open>Basic facts\<close>

lemma first_Some_mem: "first xs = Some x \<Longrightarrow> x \<in> set xs"
  by (cases xs) auto

lemma first_None_iff: "first xs = None \<longleftrightarrow> xs = []"
  by (cases xs) auto

lemma id_c_set_content [simp]: "id_c (set_content now v r) = id_c r"
  by (simp add: set_content_def)

lemma viewCount_set_content [simp]: "viewCount (set_content now v r) = viewCount r"
  by (simp add: set_content_def)

lemma createdAt_set_content [simp]: "createdAt (set_content now v r) = createdAt r"
  by (simp add: set_content_def)

lemma sort_key_Nil_iff: "sort_key f xs = [] \<longleftrightarrow> xs = []"
  by (metis set_empty set_sort)

lemma distinct_id_eq:
  "distinct (map f xs) \<Longrightarrow> x \<in> set xs \<Longrightarrow> y \<in> set xs \<Longrightarrow> f x = f y \<Longrightarrow> x = y"
  by (auto simp: distinct_map inj_on_def)

lemma filter_key_single:
  assumes "distinct (map f xs)" and "r \<in> set xs" and "P r"
  shows "filter (\<lambda>x. f x = f r \<and> P x) xs = [r]"
  using assms
proof (induction xs)
  case Nil
  then show ?case by simp
next
  case (Cons a xs)
  show ?case
  proof (cases "a = r")
    case True
    with Cons.prems have "\<forall>x \<in> set xs. f x \<noteq> f r"
      by (metis distinct.simps(2) image_eqI list.simps(9) set_map)
    then have "filter (\<lambda>x. f x = f r \<and> P x) xs = []"
      by (simp add: filter_empty_conv)
    with True Cons.prems show ?thesis by simp
  next
    case False
    with Cons.prems have "r \<in> set xs" and "f a \<noteq> f r"
      by auto
    with Cons show ?thesis by simp
  qed
qed

lemma getContentById_None:
  "getContentById d i = None \<longleftrightarrow>
     (\<forall>r \<in> set (content d). \<not> (id_c r = i \<and> isActive r = Some True))"
  by (simp add: getContentById_def first_None_iff filter_empty_conv)

lemma getContentById_Some:
  assumes "distinct (map id_c (content d))" and "r \<in> set (content d)"
    and "isActive r = Some True"
  shows "getContentById d (id_c r) = Some r"
  using filter_key_single [of id_c "content d" r "\<lambda>x. isActive x = Some True", OF assms]
  by (simp add: getContentById_def)

lemma getContentById_SomeD:
  "getContentById d i = Some r \<Longrightarrow> r \<in> set (content d) \<and> id_c r = i \<and> isActive r = Some True"
  unfolding getContentById_def by (drule first_Some_mem) simp

lemma wfD_distinct: "wf d \<Longrightarrow> distinct (map id_c (content d))"
  by (simp add: wf_def)

lemma wfD_viewCount: "wf d \<Longrightarrow> r \<in> set (content d) \<Longrightarrow> \<exists>n. viewCount r = Some n"
  by (auto simp: wf_def list_all_iff)

lemma wfD_createdAt: "wf d \<Longrightarrow> r \<in> set (content d) \<Longrightarrow> \<exists>t. createdAt r = Some t"
  by (auto simp: wf_def list_all_iff)

lemma incrementViewCount_Inr:
  "incrementViewCount d i = Inr d' \<Longrightarrow>
     d' = d\<lparr>content :=
            map (\<lambda>r. if id_c r = i
                     then r\<lparr>viewCount := map_option (\<lambda>n. n + 1) (viewCount r)\<rparr> else r)
              (content d)\<rparr>"
  by (simp add: incrementViewCount_def split: if_splits)

lemma increment_only_row:
  assumes "wf d" and "r \<in> set (content d)" and "viewCount r = Some n"
    and "bindable (id_c r)" and "n \<noteq> 2147483647"
  shows "incrementViewCount d (id_c r) =
         Inr (d\<lparr>content :=
                map (\<lambda>x. if x = r then r\<lparr>viewCount := Some (n + 1)\<rparr> else x) (content d)\<rparr>)"
proof -
  have same: "id_c x = id_c r \<longleftrightarrow> x = r" if "x \<in> set (content d)" for x
    using that assms(1,2) distinct_id_eq [of id_c "content d" x r]
    by (auto dest: wfD_distinct)
  have "map (\<lambda>x. if id_c x = id_c r then x\<lparr>viewCount := map_option (\<lambda>n. n + 1) (viewCount x)\<rparr> else x)
          (content d) =
        map (\<lambda>x. if x = r then r\<lparr>viewCount := Some (n + 1)\<rparr> else x) (content d)"
  proof (rule map_cong [OF refl])
    fix x assume "x \<in> set (content d)"
    with assms(3) same [of x]
    show "(if id_c x = id_c r then x\<lparr>viewCount := map_option (\<lambda>n. n + 1) (viewCount x)\<rparr> else x) =
        (if x = r then r\<lparr>viewCount := Some (n + 1)\<rparr> else x)"
      by simp
  qed
  moreover have "\<not> list_ex (\<lambda>x. id_c x = id_c r \<and> viewCount x = Some 2147483647) (content d)"
    using same assms(3,5) by (auto simp: list_ex_iff)
  ultimately show ?thesis
    using assms(4) by (simp add: incrementViewCount_def)
qed

lemma increment_at_greatest:
  assumes "r \<in> set (content d)" and "viewCount r = Some 2147483647"
  shows "\<exists>err. incrementViewCount d (id_c r) = Inl err"
proof -
  from assms have "list_ex (\<lambda>x. id_c x = id_c r \<and> viewCount x = Some 2147483647) (content d)"
    by (auto simp: list_ex_iff)
  then show ?thesis
    by (simp add: incrementViewCount_def)
qed

lemma content_store_a: "content store_a = [row_c1, row_c2, row_c3]"
  by (simp add: store_a_def)

lemma wf_store_a: "wf store_a"
  by (simp add: wf_def store_a_def row_c1_def row_c2_def row_c3_def example_row_def)

text \<open>The example rows, field by field.\<close>

lemma titles_a: "title row_c1 = ''Alien''" "title row_c2 = ''Brazil''" "title row_c3 = ''Casablanca''"
  by (simp_all add: row_c1_def row_c2_def row_c3_def example_row_def)

lemma flags_a: "isActive row_c1 = Some True" "isActive row_c2 = Some False"
  "isActive row_c3 = Some True"
  by (simp_all add: row_c1_def row_c2_def row_c3_def example_row_def)

lemma times_a: "createdAt row_c1 = Some 10" "createdAt row_c2 = Some 20"
  "createdAt row_c3 = Some 30"
  by (simp_all add: row_c1_def row_c2_def row_c3_def example_row_def)

text \<open>The example requests, evaluated.\<close>

lemma id_rows: "id_c row_c1 = ''c1''" "id_c row_c2 = ''c2''" "id_c row_c3 = ''c3''"
  "id_c row_c7 = ''c7''"
  by (simp_all add: row_c1_def row_c2_def row_c3_def row_c7_def example_row_def)

lemma counts_a: "viewCount row_c1 = Some 3" "viewCount row_c2 = Some 8"
  "viewCount row_c3 = Some 5" "viewCount row_c7 = Some 2147483647"
  by (simp_all add: row_c1_def row_c2_def row_c3_def row_c7_def example_row_def)

lemma wf_store_max: "wf store_max"
  by (simp add: wf_def store_max_def row_c7_def example_row_def)

lemma bindable_ids: "bindable ''c1''" "bindable ''c2''" "bindable ''c3''" "bindable ''c7''"
  by (simp_all add: bindable_def)

lemma pw_b: "property body_b ''password'' = Some (JStr ADMIN_PASSWORD)"
  by (simp add: body_b_def ADMIN_PASSWORD_def)

lemma payload_b: "body_or body_b ''content'' = body_b"
  by (simp add: body_or_def body_b_def)

lemma issues_b: "partialContentSchema_issues body_b = []"
  by (simp add: partialContentSchema_issues_def is_object_def optional_def nullish_def
      content_issues_def body_b_def)

lemma parse_b: "partialContentSchema_parse body_b = Inr data_b"
  unfolding partialContentSchema_parse_def issues_b data_b_def
  by (simp add: body_b_def)

lemma accepted_b: "partial_texts_ok data_b" "int_ok (year_in data_b)" "type_fits data_b"
  by (simp_all add: partial_texts_ok_def optionals_texts_ok_def type_fits_def data_b_def
      optionals_of_def body_b_def bindable_def PartialInsertContent.defs ContentOptionals.defs)

lemma put_b:
  "content (store (handle env_a None (Put_admin_content ''c1'' body_b) store_a)) =
     [set_content 41 data_b row_c1, row_c2, row_c3]"
  by (simp add: checkAdminPassword_def pw_b put_admin_content_def payload_b parse_b
      updateContent_def accepted_b bindable_ids reply_def content_store_a id_rows env_a_def)

lemma pw_c: "property body_c ''password'' = Some (JStr ADMIN_PASSWORD)"
  by (simp add: body_c_def ADMIN_PASSWORD_def)

lemma payload_c: "body_or body_c ''content'' = body_c"
  by (simp add: body_or_def body_c_def)

lemma issues_c: "insertContentSchema_issues body_c = []"
  by (simp add: insertContentSchema_issues_def is_object_def required_def nullish_def
      content_issues_def body_c_def)

lemma parse_c: "insertContentSchema_parse body_c = Inr data_c"
  unfolding insertContentSchema_parse_def issues_c data_c_def
  by (simp add: body_c_def req_string_def)

lemma accepted_c: "type_in data_c = ''movie''" "title_in data_c = ''Dune''"
  "optionals_texts_ok data_c" "int_ok (year_in data_c)"
  by (simp_all add: optionals_texts_ok_def data_c_def optionals_of_def body_c_def
      InsertContent.defs ContentOptionals.defs)

lemma post_c:
  "content (store (handle env_a None (Post_admin_content body_c) store_a)) =
     [row_c1, row_c2, row_c3, new_content env_a data_c]"
  by (simp add: checkAdminPassword_def pw_c post_admin_content_def payload_c parse_c
      createContent_def accepted_c bindable_def reply_def content_store_a id_rows)
    (simp add: env_a_def)

lemma read_c1: "getContentById store_a ''c1'' = Some row_c1"
  by (simp add: getContentById_def content_store_a id_rows flags_a)

lemma increment_c1:
  "incrementViewCount store_a ''c1'' =
     Inr (store_a\<lparr>content := [row_c1\<lparr>viewCount := Some 4\<rparr>, row_c2, row_c3]\<rparr>)"
  by (simp add: incrementViewCount_def content_store_a id_rows counts_a bindable_ids)

lemma get_c1:
  "content (store (handle env_a None (Get_content_id ''c1'') store_a)) =
     [row_c1\<lparr>viewCount := Some 4\<rparr>, row_c2, row_c3]"
  by (simp add: get_content_id_def get_content_id_after_read_def bind_def bindable_ids
      read_c1 increment_c1 reply_def)

section \<open>What a request does to the content table\<close>

lemma handle_content_cases:
  "(content (store (handle e s req d)) = content d \<and>
      (\<forall>i. req = Get_content_id i \<longrightarrow>
           \<not> bindable i \<or> getContentById d i = None \<or>
           (\<exists>err. incrementViewCount d i = Inl err))) \<or>
   (\<exists>i. req = Get_content_id i \<and> bindable i \<and> getContentById d i \<noteq> None \<and>
        incrementViewCount d i = Inr (store (handle e s req d))) \<or>
   (\<exists>i b v. req = Put_admin_content i b \<and>
        content (store (handle e s req d)) =
          map (\<lambda>r. if id_c r = i then set_content (js_now e) v r else r) (content d)) \<or>
   (\<exists>i b. req = Delete_admin_content i b \<and>
        content (store (handle e s req d)) = filter (\<lambda>r. id_c r \<noteq> i) (content d)) \<or>
   (\<exists>b v. req = Post_admin_content b \<and> uuid e \<notin> set (map id_c (content d)) \<and>
        content (store (handle e s req d)) = content d @ [new_content e v])"
proof (cases req)
  case Get_auth_user
  then show ?thesis
    by (simp add: isAuthenticated_def get_auth_user_def bind_def reply_def split: option.splits)
next
  case (Get_content q)
  then show ?thesis
    by (simp add: get_content_def bind_def reply_def)
next
  case (Get_content_id i)
  show ?thesis
  proof (cases "bindable i")
    case False
    with Get_content_id show ?thesis
      by (simp add: get_content_id_def bind_def reply_def)
  next
    case True
    show ?thesis
    proof (cases "getContentById d i")
      case None
      with True Get_content_id show ?thesis
        by (simp add: get_content_id_def get_content_id_after_read_def bind_def reply_def)
    next
      case (Some r)
      with True Get_content_id show ?thesis
        by (cases "incrementViewCount d i")
          (simp_all add: get_content_id_def get_content_id_after_read_def bind_def reply_def)
    qed
  qed
next
  case (Get_content_id_episodes i)
  then show ?thesis
    by (simp add: get_content_id_episodes_def bind_def reply_def)
next
  case Get_favorites
  then show ?thesis
    by (simp add: isAuthenticated_def get_favorites_def bind_def reply_def split: option.splits)
next
  case (Post_favorites b)
  then show ?thesis
    by (auto simp: isAuthenticated_def post_favorites_def reply_def addToFavorites_def
        split: option.splits sum.splits if_splits)
next
  case (Delete_favorites c)
  then show ?thesis
    by (simp add: isAuthenticated_def delete_favorites_def bind_def reply_def
        removeFromFavorites_def split: option.splits)
next
  case (Get_favorites_check c)
  then show ?thesis
    by (simp add: isAuthenticated_def get_favorites_check_def bind_def reply_def
        split: option.splits)
next
  case (Post_admin_verify b)
  then show ?thesis
    by (simp add: post_admin_verify_def reply_def)
next
  case (Post_admin_content b)
  then show ?thesis
    by (auto simp: checkAdminPassword_def post_admin_content_def reply_def createContent_def
        split: sum.splits if_splits)
next
  case (Put_admin_content i b)
  then show ?thesis
    by (auto simp: checkAdminPassword_def put_admin_content_def reply_def updateContent_def
        split: sum.splits if_splits)
next
  case (Delete_admin_content i b)
  then show ?thesis
    by (simp add: checkAdminPassword_def delete_admin_content_def bind_def reply_def
        deleteContent_def)
next
  case (Post_admin_episodes b)
  then show ?thesis
    by (auto simp: checkAdminPassword_def post_admin_episodes_def reply_def createEpisode_def
        split: sum.splits if_splits)
qed

lemma map_id_upd:
  "(\<And>x. f (g x) = f x) \<Longrightarrow> map (f \<circ> (\<lambda>r. if P r then g r else r)) xs = map f xs"
  by (induction xs) auto

lemma wf_empty_db: "wf empty_db"
  by (simp add: wf_def empty_db_def)

lemma wf_incrementViewCount: "wf d \<Longrightarrow> incrementViewCount d i = Inr d' \<Longrightarrow> wf d'"
  by (auto simp: wf_def map_id_upd list_all_iff dest!: incrementViewCount_Inr)

lemma handle_wf:
  assumes "wf d"
  shows "wf (store (handle e s req d))"
proof -
  consider
    (same) "content (store (handle e s req d)) = content d"
  | (incr) i where "incrementViewCount d i = Inr (store (handle e s req d))"
  | (upd) i v where "content (store (handle e s req d)) =
          map (\<lambda>r. if id_c r = i then set_content (js_now e) v r else r) (content d)"
  | (del) i where "content (store (handle e s req d)) = filter (\<lambda>r. id_c r \<noteq> i) (content d)"
  | (new) v where "uuid e \<notin> set (map id_c (content d))"
        "content (store (handle e s req d)) = content d @ [new_content e v]"
    using handle_content_cases [of e s req d] by blast
  then show ?thesis
  proof cases
    case same
    with assms show ?thesis by (simp add: wf_def)
  next
    case incr
    with assms show ?thesis by (rule wf_incrementViewCount)
  next
    case upd
    with assms show ?thesis
      by (auto simp: wf_def map_id_upd list_all_iff)
  next
    case del
    with assms show ?thesis
      by (auto simp: wf_def distinct_map_filter list_all_iff)
  next
    case new
    with assms show ?thesis
      by (auto simp: wf_def new_content_def list_all_iff)
  qed
qed

section \<open>Soft deletion\<close>

lemma filter_id_single:
  assumes "distinct (map f xs)" and "r \<in> set xs"
  shows "filter (\<lambda>x. f x = f r) xs = [r]"
  using filter_key_single [of f xs r "\<lambda>x. True", OF assms] by simp

lemma map_at_id:
  assumes "distinct (map f xs)" and "r \<in> set xs"
  shows "map (\<lambda>x. if f x = f r then g x else x) xs = map (\<lambda>x. if x = r then g r else x) xs"
proof (rule map_cong [OF refl])
  fix x assume "x \<in> set xs"
  with assms have "f x = f r \<longleftrightarrow> x = r"
    using distinct_id_eq [of f xs x r] by auto
  then show "(if f x = f r then g x else x) = (if x = r then g r else x)"
    by auto
qed

text \<open>
  Claim C1. A content row whose \<open>isActive\<close> is false is in none of the results of
  \<open>getAllContent\<close>, \<open>getContentByType\<close>, \<open>getFeaturedContent\<close>, \<open>getPopularContent\<close>,
  \<open>getNewContent\<close> and \<open>searchContent\<close>. \<open>updateContent\<close> and \<open>deleteContent\<close> select by
  id alone. An update of the inactive row with data the store takes returns the
  updated row and puts it in the row's place: every key present in the data has its
  new value, \<open>updatedAt\<close> is the clock, and the id, the counter, \<open>createdAt\<close> and the
  keys that are absent are as they were. A delete leaves no row of that id.
\<close>

theorem inactive_hidden:
  assumes "r \<in> set (content d)" and "isActive r = Some False"
  shows "r \<notin> set (getAllContent d) \<and> r \<notin> set (getContentByType d t) \<and>
         getFeaturedContent d \<noteq> Some r \<and> r \<notin> set (getPopularContent d) \<and>
         r \<notin> set (getNewContent d) \<and> r \<notin> set (searchContent d q) \<and>
         (distinct (map id_c (content d)) \<and> bindable (id_c r) \<and> partial_texts_ok v \<and>
          int_ok (year_in v) \<and> type_fits v \<longrightarrow>
            (\<exists>r'. updateContent e d (id_c r) v =
                    Inr (Some r', d\<lparr>content := map (\<lambda>x. if x = r then r' else x) (content d)\<rparr>) \<and>
                  id_c r' = id_c r \<and>
                  title r' = (case title_opt v of None \<Rightarrow> title r | Some x \<Rightarrow> x) \<and>
                  description r' = (case description_in v of None \<Rightarrow> description r | Some x \<Rightarrow> x) \<and>
                  type_c r' = (case type_opt v of None \<Rightarrow> type_c r | Some x \<Rightarrow> x) \<and>
                  videoUrl r' = (case videoUrl_in v of None \<Rightarrow> videoUrl r | Some x \<Rightarrow> x) \<and>
                  thumbnailHorizontal r' =
                    (case thumbnailHorizontal_in v of None \<Rightarrow> thumbnailHorizontal r | Some x \<Rightarrow> x) \<and>
                  thumbnailVertical r' =
                    (case thumbnailVertical_in v of None \<Rightarrow> thumbnailVertical r | Some x \<Rightarrow> x) \<and>
                  year r' = (case year_in v of None \<Rightarrow> year r | Some x \<Rightarrow> x) \<and>
                  duration r' = (case duration_in v of None \<Rightarrow> duration r | Some x \<Rightarrow> x) \<and>
                  rating r' = (case rating_in v of None \<Rightarrow> rating r | Some x \<Rightarrow> x) \<and>
                  genres r' = (case genres_in v of None \<Rightarrow> genres r | Some x \<Rightarrow> x) \<and>
                  cast_c r' = (case cast_in v of None \<Rightarrow> cast_c r | Some x \<Rightarrow> x) \<and>
                  director r' = (case director_in v of None \<Rightarrow> director r | Some x \<Rightarrow> x) \<and>
                  isActive r' = (case isActive_in v of None \<Rightarrow> isActive r | Some x \<Rightarrow> x) \<and>
                  isFeatured r' = (case isFeatured_in v of None \<Rightarrow> isFeatured r | Some x \<Rightarrow> x) \<and>
                  viewCount r' = viewCount r \<and> createdAt r' = createdAt r \<and>
                  updatedAt r' = Some (js_now e))) \<and>
         id_c r \<notin> id_c ` set (content (deleteContent d (id_c r)))"
proof -
  have all: "r \<notin> set (getAllContent d)"
    using assms(2) by (simp add: getAllContent_def)
  have by_type: "r \<notin> set (getContentByType d t)"
    using assms(2) by (simp add: getContentByType_def)
  have featured: "getFeaturedContent d \<noteq> Some r"
  proof
    assume "getFeaturedContent d = Some r"
    then have "r \<in> set (sort_key (\<lambda>r. desc (createdAt r))
        (filter (\<lambda>r. isFeatured r = Some True \<and> isActive r = Some True) (content d)))"
      unfolding getFeaturedContent_def by (rule first_Some_mem)
    with assms(2) show False by simp
  qed
  have popular: "r \<notin> set (getPopularContent d)"
  proof
    assume "r \<in> set (getPopularContent d)"
    then have "r \<in> set (sort_key (\<lambda>r. desc (viewCount r))
        (filter (\<lambda>r. isActive r = Some True) (content d)))"
      unfolding getPopularContent_def by (rule in_set_takeD)
    with assms(2) show False by simp
  qed
  have new: "r \<notin> set (getNewContent d)"
  proof
    assume "r \<in> set (getNewContent d)"
    then have "r \<in> set (sort_key (\<lambda>r. desc (createdAt r))
        (filter (\<lambda>r. isActive r = Some True) (content d)))"
      unfolding getNewContent_def by (rule in_set_takeD)
    with assms(2) show False by simp
  qed
  have search: "r \<notin> set (searchContent d q)"
    using assms(2) by (simp add: searchContent_def)
  have update: "\<exists>r'. updateContent e d (id_c r) v =
                    Inr (Some r', d\<lparr>content := map (\<lambda>x. if x = r then r' else x) (content d)\<rparr>) \<and>
                  id_c r' = id_c r \<and>
                  title r' = (case title_opt v of None \<Rightarrow> title r | Some x \<Rightarrow> x) \<and>
                  description r' = (case description_in v of None \<Rightarrow> description r | Some x \<Rightarrow> x) \<and>
                  type_c r' = (case type_opt v of None \<Rightarrow> type_c r | Some x \<Rightarrow> x) \<and>
                  videoUrl r' = (case videoUrl_in v of None \<Rightarrow> videoUrl r | Some x \<Rightarrow> x) \<and>
                  thumbnailHorizontal r' =
                    (case thumbnailHorizontal_in v of None \<Rightarrow> thumbnailHorizontal r | Some x \<Rightarrow> x) \<and>
                  thumbnailVertical r' =
                    (case thumbnailVertical_in v of None \<Rightarrow> thumbnailVertical r | Some x \<Rightarrow> x) \<and>
                  year r' = (case year_in v of None \<Rightarrow> year r | Some x \<Rightarrow> x) \<and>
                  duration r' = (case duration_in v of None \<Rightarrow> duration r | Some x \<Rightarrow> x) \<and>
                  rating r' = (case rating_in v of None \<Rightarrow> rating r | Some x \<Rightarrow> x) \<and>
                  genres r' = (case genres_in v of None \<Rightarrow> genres r | Some x \<Rightarrow> x) \<and>
                  cast_c r' = (case cast_in v of None \<Rightarrow> cast_c r | Some x \<Rightarrow> x) \<and>
                  director r' = (case director_in v of None \<Rightarrow> director r | Some x \<Rightarrow> x) \<and>
                  isActive r' = (case isActive_in v of None \<Rightarrow> isActive r | Some x \<Rightarrow> x) \<and>
                  isFeatured r' = (case isFeatured_in v of None \<Rightarrow> isFeatured r | Some x \<Rightarrow> x) \<and>
                  viewCount r' = viewCount r \<and> createdAt r' = createdAt r \<and>
                  updatedAt r' = Some (js_now e)"
    if ok: "distinct (map id_c (content d)) \<and> bindable (id_c r) \<and> partial_texts_ok v \<and>
          int_ok (year_in v) \<and> type_fits v"
  proof -
    define r' where "r' = set_content (js_now e) v r"
    from ok assms(1) have one: "filter (\<lambda>x. id_c x = id_c r) (content d) = [r]"
      by (simp add: filter_id_single)
    from ok assms(1)
    have rows: "map (\<lambda>x. if id_c x = id_c r then set_content (js_now e) v x else x) (content d) =
        map (\<lambda>x. if x = r then r' else x) (content d)"
      unfolding r'_def by (simp add: map_at_id)
    from ok have "updateContent e d (id_c r) v =
        Inr (Some r', d\<lparr>content := map (\<lambda>x. if x = r then r' else x) (content d)\<rparr>)"
      by (simp add: updateContent_def one rows) (simp add: r'_def)
    moreover have "id_c r' = id_c r" "viewCount r' = viewCount r" "createdAt r' = createdAt r"
      "updatedAt r' = Some (js_now e)"
      by (simp_all add: r'_def set_content_def)
    moreover have "title r' = (case title_opt v of None \<Rightarrow> title r | Some x \<Rightarrow> x)"
      "type_c r' = (case type_opt v of None \<Rightarrow> type_c r | Some x \<Rightarrow> x)"
      by (simp_all add: r'_def set_content_def split: option.splits)
    moreover have "description r' = (case description_in v of None \<Rightarrow> description r | Some x \<Rightarrow> x)"
      "videoUrl r' = (case videoUrl_in v of None \<Rightarrow> videoUrl r | Some x \<Rightarrow> x)"
      "thumbnailHorizontal r' =
         (case thumbnailHorizontal_in v of None \<Rightarrow> thumbnailHorizontal r | Some x \<Rightarrow> x)"
      "thumbnailVertical r' =
         (case thumbnailVertical_in v of None \<Rightarrow> thumbnailVertical r | Some x \<Rightarrow> x)"
      "year r' = (case year_in v of None \<Rightarrow> year r | Some x \<Rightarrow> x)"
      "duration r' = (case duration_in v of None \<Rightarrow> duration r | Some x \<Rightarrow> x)"
      by (simp_all add: r'_def set_content_def split: option.splits)
    moreover have "rating r' = (case rating_in v of None \<Rightarrow> rating r | Some x \<Rightarrow> x)"
      "genres r' = (case genres_in v of None \<Rightarrow> genres r | Some x \<Rightarrow> x)"
      "cast_c r' = (case cast_in v of None \<Rightarrow> cast_c r | Some x \<Rightarrow> x)"
      "director r' = (case director_in v of None \<Rightarrow> director r | Some x \<Rightarrow> x)"
      "isActive r' = (case isActive_in v of None \<Rightarrow> isActive r | Some x \<Rightarrow> x)"
      "isFeatured r' = (case isFeatured_in v of None \<Rightarrow> isFeatured r | Some x \<Rightarrow> x)"
      by (simp_all add: r'_def set_content_def split: option.splits)
    ultimately show ?thesis
      by blast
  qed
  have delete: "id_c r \<notin> id_c ` set (content (deleteContent d (id_c r)))"
    by (auto simp: deleteContent_def)
  from all by_type featured popular new search update delete show ?thesis
    by blast
qed

lemma accepted_a: "partial_texts_ok data_a" "int_ok (year_in data_a)" "type_fits data_a"
  "title_opt data_a = Some ''Brazil (1985)''" "isActive_in data_a = None"
  by (simp_all add: partial_texts_ok_def optionals_texts_ok_def type_fits_def data_a_def
      optionals_of_def bindable_def PartialInsertContent.defs ContentOptionals.defs)

theorem inactive_hidden_witness:
  "row_c2 \<in> set (content store_a) \<and> isActive row_c2 = Some False \<and>
   map id_c (getAllContent store_a) = [''c3'', ''c1''] \<and>
   map id_c (getContentByType store_a ''movie'') = [''c3'', ''c1''] \<and>
   map_option id_c (getFeaturedContent store_a) = Some ''c3'' \<and>
   map id_c (getPopularContent store_a) = [''c3'', ''c1''] \<and>
   map id_c (getNewContent store_a) = [''c3'', ''c1''] \<and>
   map id_c (searchContent store_a ''a'') = [''c3'', ''c1''] \<and>
   distinct (map id_c (content store_a)) \<and> bindable (id_c row_c2) \<and>
   partial_texts_ok data_a \<and> int_ok (year_in data_a) \<and> type_fits data_a \<and>
   (\<exists>r'. updateContent env_a store_a ''c2'' data_a =
            Inr (Some r', store_a\<lparr>content := [row_c1, r', row_c3]\<rparr>) \<and>
         id_c r' = ''c2'' \<and> title r' = ''Brazil (1985)'' \<and> isActive r' = Some False \<and>
         viewCount r' = Some 8 \<and> updatedAt r' = Some 41) \<and>
   map id_c (content (deleteContent store_a ''c2'')) = [''c1'', ''c3'']"
proof -
  have c2: "row_c2 \<in> set (content store_a)" "isActive row_c2 = Some False"
    by (simp_all add: content_store_a flags_a)
  have pk: "distinct (map id_c (content store_a))"
    by (simp add: content_store_a id_rows)
  have distinct_rows: "row_c1 \<noteq> row_c2" "row_c3 \<noteq> row_c2"
    using id_rows by auto
  from inactive_hidden [OF c2, where v = data_a and e = env_a] pk bindable_ids accepted_a
  obtain r' where r': "updateContent env_a store_a (id_c row_c2) data_a =
        Inr (Some r', store_a\<lparr>content := map (\<lambda>x. if x = row_c2 then r' else x) (content store_a)\<rparr>)"
      "id_c r' = id_c row_c2"
      "title r' = (case title_opt data_a of None \<Rightarrow> title row_c2 | Some x \<Rightarrow> x)"
      "isActive r' = (case isActive_in data_a of None \<Rightarrow> isActive row_c2 | Some x \<Rightarrow> x)"
      "viewCount r' = viewCount row_c2" "updatedAt r' = Some (js_now env_a)"
    unfolding id_rows by blast
  then have upd: "\<exists>r'. updateContent env_a store_a ''c2'' data_a =
            Inr (Some r', store_a\<lparr>content := [row_c1, r', row_c3]\<rparr>) \<and>
         id_c r' = ''c2'' \<and> title r' = ''Brazil (1985)'' \<and> isActive r' = Some False \<and>
         viewCount r' = Some 8 \<and> updatedAt r' = Some 41"
    by (simp add: id_rows accepted_a flags_a counts_a content_store_a distinct_rows env_a_def)
  have reads: "map id_c (getAllContent store_a) = [''c3'', ''c1'']"
    "map id_c (getContentByType store_a ''movie'') = [''c3'', ''c1'']"
    "map_option id_c (getFeaturedContent store_a) = Some ''c3''"
    "map id_c (getPopularContent store_a) = [''c3'', ''c1'']"
    "map id_c (getNewContent store_a) = [''c3'', ''c1'']"
    "map id_c (searchContent store_a ''a'') = [''c3'', ''c1'']"
    "map id_c (content (deleteContent store_a ''c2'')) = [''c1'', ''c3'']"
    by (simp_all add: store_a_def row_c1_def row_c2_def row_c3_def example_row_def
        getAllContent_def getContentByType_def getFeaturedContent_def getPopularContent_def
        getNewContent_def searchContent_def deleteContent_def desc_def ilike_def to_lower_def)
  from c2 pk bindable_ids accepted_a upd reads show ?thesis
    by (simp add: id_rows)
qed

section \<open>Reading one item\<close>

text \<open>
  Claim C3, as the code has it. \<open>GET /api/content/:id\<close>, run with nothing between its
  two statements, for an id the store can bind: when no row has that id and
  \<open>isActive\<close> true, the answer is 404, the store is left as it was and
  \<open>incrementViewCount\<close> is not called. When such a row exists (in a store that is
  \<open>wf\<close>) and its counter is not at the greatest integer, the answer is 200 with that
  row, and the store afterwards differs from the store before in that row's counter
  alone, which is one higher. When its counter is at the greatest integer the
  increment is refused: the answer is 500 and the store is left as it was. An id the
  store cannot bind is answered with 500 likewise.
\<close>

theorem get_content_id_route:
  "(bindable i \<and> (\<forall>r \<in> set (content d). \<not> (id_c r = i \<and> isActive r = Some True)) \<longrightarrow>
      status (handle e s (Get_content_id i) d) = 404 \<and>
      store (handle e s (Get_content_id i) d) = d \<and>
      Call_incrementViewCount \<notin> set (calls (handle e s (Get_content_id i) d))) \<and>
   (wf d \<and> bindable i \<and> r \<in> set (content d) \<and> id_c r = i \<and> isActive r = Some True \<and>
    viewCount r \<noteq> Some 2147483647 \<longrightarrow>
      status (handle e s (Get_content_id i) d) = 200 \<and>
      body (handle e s (Get_content_id i) d) = ContentJ r \<and>
      (\<exists>n. viewCount r = Some n \<and>
           store (handle e s (Get_content_id i) d) =
             d\<lparr>content :=
                 map (\<lambda>x. if x = r then r\<lparr>viewCount := Some (n + 1)\<rparr> else x) (content d)\<rparr>)) \<and>
   (wf d \<and> bindable i \<and> r \<in> set (content d) \<and> id_c r = i \<and> isActive r = Some True \<and>
    viewCount r = Some 2147483647 \<longrightarrow>
      status (handle e s (Get_content_id i) d) = 500 \<and>
      store (handle e s (Get_content_id i) d) = d) \<and>
   (\<not> bindable i \<longrightarrow>
      status (handle e s (Get_content_id i) d) = 500 \<and>
      store (handle e s (Get_content_id i) d) = d \<and>
      Call_incrementViewCount \<notin> set (calls (handle e s (Get_content_id i) d)))"
proof (intro conjI impI)
  assume none: "bindable i \<and>
      (\<forall>r \<in> set (content d). \<not> (id_c r = i \<and> isActive r = Some True))"
  then have "getContentById d i = None"
    by (simp add: getContentById_None)
  with none show "status (handle e s (Get_content_id i) d) = 404"
    and "store (handle e s (Get_content_id i) d) = d"
    and "Call_incrementViewCount \<notin> set (calls (handle e s (Get_content_id i) d))"
    by (simp_all add: get_content_id_def get_content_id_after_read_def bind_def reply_def)
next
  assume a: "wf d \<and> bindable i \<and> r \<in> set (content d) \<and> id_c r = i \<and>
      isActive r = Some True \<and> viewCount r \<noteq> Some 2147483647"
  then have found: "getContentById d i = Some r"
    using getContentById_Some [of d r] by (auto dest: wfD_distinct)
  from a obtain n where n: "viewCount r = Some n"
    using wfD_viewCount by blast
  with a have "n \<noteq> 2147483647" by simp
  with a n have incr: "incrementViewCount d i =
      Inr (d\<lparr>content := map (\<lambda>x. if x = r then r\<lparr>viewCount := Some (n + 1)\<rparr> else x) (content d)\<rparr>)"
    using increment_only_row [of d r n] by auto
  from a have b: "bindable i" by simp
  from b found incr show "status (handle e s (Get_content_id i) d) = 200"
    and "body (handle e s (Get_content_id i) d) = ContentJ r"
    by (simp_all add: get_content_id_def get_content_id_after_read_def bind_def reply_def)
  from b found incr have "store (handle e s (Get_content_id i) d) =
      d\<lparr>content := map (\<lambda>x. if x = r then r\<lparr>viewCount := Some (n + 1)\<rparr> else x) (content d)\<rparr>"
    by (simp add: get_content_id_def get_content_id_after_read_def bind_def reply_def)
  with n show "\<exists>n. viewCount r = Some n \<and>
           store (handle e s (Get_content_id i) d) =
             d\<lparr>content :=
                 map (\<lambda>x. if x = r then r\<lparr>viewCount := Some (n + 1)\<rparr> else x) (content d)\<rparr>"
    by blast
next
  assume a: "wf d \<and> bindable i \<and> r \<in> set (content d) \<and> id_c r = i \<and>
      isActive r = Some True \<and> viewCount r = Some 2147483647"
  then have found: "getContentById d i = Some r"
    using getContentById_Some [of d r] by (auto dest: wfD_distinct)
  from a obtain err where "incrementViewCount d i = Inl err"
    using increment_at_greatest [of r d] by auto
  moreover from a have "bindable i" by simp
  ultimately show "status (handle e s (Get_content_id i) d) = 500"
    and "store (handle e s (Get_content_id i) d) = d"
    using found
    by (simp_all add: get_content_id_def get_content_id_after_read_def bind_def reply_def)
next
  assume "\<not> bindable i"
  then show "status (handle e s (Get_content_id i) d) = 500"
    and "store (handle e s (Get_content_id i) d) = d"
    and "Call_incrementViewCount \<notin> set (calls (handle e s (Get_content_id i) d))"
    by (simp_all add: get_content_id_def bind_def reply_def)
qed

lemma read_c7: "getContentById store_max ''c7'' = Some row_c7"
  by (simp add: getContentById_def store_max_def row_c7_def example_row_def)

lemma increment_c7: "incrementViewCount store_max ''c7'' = Inl IntegerOutOfRange"
  by (simp add: incrementViewCount_def store_max_def bindable_ids id_rows counts_a)

lemma get_c7:
  "status (handle env_a None (Get_content_id ''c7'') store_max) = 500"
  "store (handle env_a None (Get_content_id ''c7'') store_max) = store_max"
  by (simp_all add: get_content_id_def get_content_id_after_read_def bind_def bindable_ids
      read_c7 increment_c7 reply_def)

text \<open>
  The claim as it was stated fails in three ways: at a counter at the greatest
  integer (500, nothing incremented, though the active row exists); at an id with a
  NUL character (500, not 404, though no row has the id); and when another request
  deletes the row between the read and the increment (200 with the item, and no
  counter is incremented).
\<close>

theorem get_content_id_route_counterexample:
  "row_c7 \<in> set (content store_max) \<and> id_c row_c7 = ''c7'' \<and> isActive row_c7 = Some True \<and>
   status (handle env_a None (Get_content_id ''c7'') store_max) = 500 \<and>
   store (handle env_a None (Get_content_id ''c7'') store_max) = store_max \<and>
   filter (\<lambda>r. id_c r = [CHR 0x00] \<and> isActive r = Some True) (content store_a) = [] \<and>
   status (handle env_a None (Get_content_id [CHR 0x00]) store_a) = 500 \<and>
   getContentById store_a ''c1'' = Some row_c1 \<and>
   status (get_content_id_after_read ''c1'' (Some row_c1) (deleteContent store_a ''c1'')) = 200 \<and>
   body (get_content_id_after_read ''c1'' (Some row_c1) (deleteContent store_a ''c1'')) =
     ContentJ row_c1 \<and>
   content (store (get_content_id_after_read ''c1'' (Some row_c1) (deleteContent store_a ''c1''))) =
     [row_c2, row_c3]"
proof -
  have "row_c7 \<in> set (content store_max)" "isActive row_c7 = Some True"
    by (simp_all add: store_max_def row_c7_def example_row_def)
  moreover have "filter (\<lambda>r. id_c r = [CHR 0x00] \<and> isActive r = Some True) (content store_a) = []"
    by (simp add: content_store_a id_rows)
  moreover have "status (handle env_a None (Get_content_id [CHR 0x00]) store_a) = 500"
    by (simp add: get_content_id_def bind_def bindable_def reply_def)
  moreover have gone: "content (deleteContent store_a ''c1'') = [row_c2, row_c3]"
    by (simp add: deleteContent_def content_store_a id_rows)
  then have "incrementViewCount (deleteContent store_a ''c1'') ''c1'' =
      Inr (deleteContent store_a ''c1'')"
    by (simp add: incrementViewCount_def bindable_ids id_rows)
  then have "status (get_content_id_after_read ''c1'' (Some row_c1) (deleteContent store_a ''c1'')) = 200"
    "body (get_content_id_after_read ''c1'' (Some row_c1) (deleteContent store_a ''c1'')) =
       ContentJ row_c1"
    "content (store (get_content_id_after_read ''c1'' (Some row_c1) (deleteContent store_a ''c1''))) =
       [row_c2, row_c3]"
    by (simp_all add: get_content_id_after_read_def reply_def gone)
  ultimately show ?thesis
    using get_c7 read_c1 id_rows by blast
qed

theorem get_content_id_route_witness:
  "bindable ''c2'' \<and>
   filter (\<lambda>r. id_c r = ''c2'' \<and> isActive r = Some True) (content store_a) = [] \<and>
   status (handle env_a None (Get_content_id ''c2'') store_a) = 404 \<and>
   store (handle env_a None (Get_content_id ''c2'') store_a) = store_a \<and>
   Call_incrementViewCount \<notin> set (calls (handle env_a None (Get_content_id ''c2'') store_a)) \<and>
   wf store_a \<and> bindable ''c1'' \<and> row_c1 \<in> set (content store_a) \<and> id_c row_c1 = ''c1'' \<and>
   isActive row_c1 = Some True \<and> viewCount row_c1 \<noteq> Some 2147483647 \<and>
   status (handle env_a None (Get_content_id ''c1'') store_a) = 200 \<and>
   body (handle env_a None (Get_content_id ''c1'') store_a) = ContentJ row_c1 \<and>
   map viewCount (content (store (handle env_a None (Get_content_id ''c1'') store_a))) =
     [Some 4, Some 8, Some 5] \<and>
   wf store_max \<and> bindable ''c7'' \<and> row_c7 \<in> set (content store_max) \<and>
   id_c row_c7 = ''c7'' \<and> isActive row_c7 = Some True \<and>
   viewCount row_c7 = Some 2147483647 \<and>
   status (handle env_a None (Get_content_id ''c7'') store_max) = 500 \<and>
   store (handle env_a None (Get_content_id ''c7'') store_max) = store_max \<and>
   \<not> bindable [CHR 0x00] \<and>
   status (handle env_a None (Get_content_id [CHR 0x00]) store_a) = 500 \<and>
   store (handle env_a None (Get_content_id [CHR 0x00]) store_a) = store_a"
proof -
  have none: "\<forall>r \<in> set (content store_a). \<not> (id_c r = ''c2'' \<and> isActive r = Some True)"
    by (simp add: content_store_a id_rows flags_a)
  have row: "row_c1 \<in> set (content store_a)" "isActive row_c1 = Some True"
    "viewCount row_c1 \<noteq> Some 2147483647"
    by (simp_all add: content_store_a flags_a counts_a)
  have top: "row_c7 \<in> set (content store_max)" "isActive row_c7 = Some True"
    by (simp_all add: store_max_def row_c7_def example_row_def)
  have nul: "\<not> bindable [CHR 0x00]"
    by (simp add: bindable_def)
  from none bindable_ids
    get_content_id_route [where d = store_a and i = "''c2''" and e = env_a and s = None]
  have absent: "status (handle env_a None (Get_content_id ''c2'') store_a) = 404 \<and>
      store (handle env_a None (Get_content_id ''c2'') store_a) = store_a \<and>
      Call_incrementViewCount \<notin> set (calls (handle env_a None (Get_content_id ''c2'') store_a))"
    by blast
  from wf_store_a row bindable_ids id_rows
    get_content_id_route [where d = store_a and i = "''c1''" and r = row_c1 and e = env_a
      and s = None]
  have present: "status (handle env_a None (Get_content_id ''c1'') store_a) = 200 \<and>
      body (handle env_a None (Get_content_id ''c1'') store_a) = ContentJ row_c1 \<and>
      (\<exists>n. viewCount row_c1 = Some n \<and>
           store (handle env_a None (Get_content_id ''c1'') store_a) =
             store_a\<lparr>content :=
                 map (\<lambda>x. if x = row_c1 then row_c1\<lparr>viewCount := Some (n + 1)\<rparr> else x)
                   (content store_a)\<rparr>)"
    by blast
  then obtain n where n: "viewCount row_c1 = Some n"
    "store (handle env_a None (Get_content_id ''c1'') store_a) =
       store_a\<lparr>content :=
           map (\<lambda>x. if x = row_c1 then row_c1\<lparr>viewCount := Some (n + 1)\<rparr> else x)
             (content store_a)\<rparr>"
    by blast
  have distinct_rows: "row_c2 \<noteq> row_c1" "row_c3 \<noteq> row_c1"
    using id_rows by auto
  from n(1) have "n = 3"
    by (simp add: counts_a)
  with n(2) have counts:
    "map viewCount (content (store (handle env_a None (Get_content_id ''c1'') store_a))) =
       [Some 4, Some 8, Some 5]"
    by (simp add: content_store_a distinct_rows counts_a)
  from wf_store_max top bindable_ids id_rows counts_a
    get_content_id_route [where d = store_max and i = "''c7''" and r = row_c7 and e = env_a
      and s = None]
  have refused: "status (handle env_a None (Get_content_id ''c7'') store_max) = 500 \<and>
      store (handle env_a None (Get_content_id ''c7'') store_max) = store_max"
    by blast
  from nul
    get_content_id_route [where d = store_a and i = "[CHR 0x00]" and e = env_a and s = None]
  have unbound: "status (handle env_a None (Get_content_id [CHR 0x00]) store_a) = 500 \<and>
      store (handle env_a None (Get_content_id [CHR 0x00]) store_a) = store_a"
    by blast
  have "filter (\<lambda>r. id_c r = ''c2'' \<and> isActive r = Some True) (content store_a) = []"
    by (simp add: content_store_a id_rows flags_a)
  with absent present counts refused unbound wf_store_a wf_store_max row top nul
    bindable_ids id_rows counts_a
  show ?thesis
    by blast
qed

section \<open>Admin password\<close>

text \<open>
  Claim C5. On each admin route (verify, create, update and delete content, create
  episode), a request whose \<open>password\<close> is not the configured secret is answered with
  401, the store is left as it was and no method of the data access layer is called,
  whatever the rest of the body is.
\<close>

theorem admin_wrong_password:
  assumes "property b ''password'' \<noteq> Some (JStr ADMIN_PASSWORD)"
    and "req \<in> {Post_admin_verify b, Post_admin_content b, Put_admin_content i b,
                 Delete_admin_content i b, Post_admin_episodes b}"
  shows "status (handle e s req d) = 401 \<and>
         body (handle e s req d) = MessageJ ''Invalid admin password'' \<and>
         store (handle e s req d) = d \<and> calls (handle e s req d) = []"
  using assms by (auto simp: checkAdminPassword_def post_admin_verify_def reply_def)

theorem admin_wrong_password_witness:
  "property body_a ''password'' \<noteq> Some (JStr ADMIN_PASSWORD) \<and>
   insertContentSchema_issues (body_or body_a ''content'') = [] \<and>
   status (handle env_a None (Post_admin_content body_a) store_a) = 401 \<and>
   store (handle env_a None (Post_admin_content body_a) store_a) = store_a \<and>
   calls (handle env_a None (Post_admin_content body_a) store_a) = []"
  using admin_wrong_password [where b = body_a and req = "Post_admin_content body_a"
      and e = env_a and s = None and d = store_a]
  by (simp add: body_a_def ADMIN_PASSWORD_def insertContentSchema_issues_def body_or_def
      is_object_def required_def nullish_def content_issues_def)

section \<open>The view counter\<close>

text \<open>
  The second half of \<open>GET /api/content/:id\<close>, on whatever store it meets: the counter
  of a row is raised by one exactly when the read had found a row, the increment is
  for this row's id, and the row's counter is not at the greatest integer.
\<close>

lemma after_read_counter:
  assumes "wf d" and "r \<in> set (content d)" and "viewCount r = Some n"
    and "r' \<in> set (content (store (get_content_id_after_read i found d)))"
    and "id_c r' = id_c r"
  shows "viewCount r' =
         Some (if id_c r = i \<and> found \<noteq> None \<and> bindable i \<and> n \<noteq> 2147483647
               then n + 1 else n)"
proof -
  have uniq: "y = r" if "y \<in> set (content d)" and "id_c y = id_c r" for y
    using that assms(1,2) distinct_id_eq [of id_c "content d" y r] by (auto dest: wfD_distinct)
  show ?thesis
  proof (cases "id_c r = i \<and> found \<noteq> None \<and> bindable i \<and> n \<noteq> 2147483647")
    case True
    then obtain r0 where r0: "found = Some r0" by auto
    from True assms(1-3) have "incrementViewCount d i =
        Inr (d\<lparr>content := map (\<lambda>x. if x = r then r\<lparr>viewCount := Some (n + 1)\<rparr> else x) (content d)\<rparr>)"
      using increment_only_row [of d r n] by auto
    with r0 have "content (store (get_content_id_after_read i found d)) =
        map (\<lambda>x. if x = r then r\<lparr>viewCount := Some (n + 1)\<rparr> else x) (content d)"
      by (simp add: get_content_id_after_read_def reply_def)
    with assms(4) obtain y where y: "y \<in> set (content d)"
      "r' = (if y = r then r\<lparr>viewCount := Some (n + 1)\<rparr> else y)"
      by auto
    have "y = r"
    proof (rule ccontr)
      assume "y \<noteq> r"
      with y have "r' = y" by simp
      with assms(5) y(1) have "y = r" using uniq [of y] by simp
      with \<open>y \<noteq> r\<close> show False by simp
    qed
    with y(2) True show ?thesis by simp
  next
    case False
    have "\<exists>y \<in> set (content d). id_c r' = id_c y \<and> viewCount r' =
        (if id_c y = i \<and> found \<noteq> None \<and> (\<exists>d'. incrementViewCount d i = Inr d')
         then map_option (\<lambda>n. n + 1) (viewCount y) else viewCount y)"
    proof (cases found)
      case None
      with assms(4) show ?thesis
        by (auto simp: get_content_id_after_read_def reply_def)
    next
      case (Some r0)
      show ?thesis
      proof (cases "incrementViewCount d i")
        case (Inl err)
        with Some assms(4) show ?thesis
          by (auto simp: get_content_id_after_read_def reply_def)
      next
        case (Inr d')
        from incrementViewCount_Inr [OF Inr] Some Inr assms(4)
        obtain y where "y \<in> set (content d)"
          "r' = (if id_c y = i
                 then y\<lparr>viewCount := map_option (\<lambda>n. n + 1) (viewCount y)\<rparr> else y)"
          by (auto simp: get_content_id_after_read_def reply_def)
        with Some Inr show ?thesis
          by (intro bexI [of _ y]) auto
      qed
    qed
    then obtain y where y: "y \<in> set (content d)" "id_c r' = id_c y"
      "viewCount r' =
        (if id_c y = i \<and> found \<noteq> None \<and> (\<exists>d'. incrementViewCount d i = Inr d')
         then map_option (\<lambda>n. n + 1) (viewCount y) else viewCount y)"
      by blast
    with assms(5) have "y = r" using uniq [of y] by simp
    have "\<not> (id_c r = i \<and> found \<noteq> None \<and> (\<exists>d'. incrementViewCount d i = Inr d'))"
    proof
      assume c: "id_c r = i \<and> found \<noteq> None \<and> (\<exists>d'. incrementViewCount d i = Inr d')"
      then have "bindable i"
        by (auto simp: incrementViewCount_def split: if_splits)
      moreover from c assms(2,3) have "n \<noteq> 2147483647"
        by (auto simp: incrementViewCount_def list_ex_iff split: if_splits)
      ultimately show False
        using c False by simp
    qed
    with y(3) \<open>y = r\<close> assms(3) False show ?thesis
      by simp
  qed
qed

text \<open>
  Claim C6, as the code has it. Over one request, whatever it is: a content row that
  is still there afterwards (same id) has the counter it had, except that
  \<open>GET /api/content/:id\<close> of an active row raises that row's counter by exactly one
  when the counter is not at the greatest integer; at the greatest integer the
  increment is refused and the counter stays. A row that was not there before starts
  at zero. No body of a create or update request can set the counter: the parsed
  value has no such key. The same holds of the second half of
  \<open>GET /api/content/:id\<close> on whatever store it meets.
\<close>

theorem viewCount_monotonic:
  assumes "wf d"
  shows "(\<forall>r \<in> set (content d). \<forall>r' \<in> set (content (store (handle e s req d))).
            id_c r' = id_c r \<longrightarrow>
            (\<exists>n. viewCount r = Some n \<and>
                 viewCount r' =
                   Some (if req = Get_content_id (id_c r) \<and> bindable (id_c r) \<and>
                            isActive r = Some True \<and> n \<noteq> 2147483647
                         then n + 1 else n))) \<and>
         (\<forall>r' \<in> set (content (store (handle e s req d))).
            id_c r' \<notin> id_c ` set (content d) \<longrightarrow> viewCount r' = Some 0) \<and>
         (\<forall>r \<in> set (content d).
            \<forall>r' \<in> set (content (store (get_content_id_after_read i found d))).
            id_c r' = id_c r \<longrightarrow>
            (\<exists>n. viewCount r = Some n \<and>
                 viewCount r' =
                   Some (if id_c r = i \<and> found \<noteq> None \<and> bindable i \<and> n \<noteq> 2147483647
                         then n + 1 else n)))"
proof (intro conjI ballI impI)
  fix r r'
  assume r: "r \<in> set (content d)"
    and r': "r' \<in> set (content (store (handle e s req d)))"
    and same_id: "id_c r' = id_c r"
  from assms r obtain n where n: "viewCount r = Some n"
    using wfD_viewCount by blast
  have uniq: "y = r" if "y \<in> set (content d)" and "id_c y = id_c r" for y
    using that r assms distinct_id_eq [of id_c "content d" y r] by (auto dest: wfD_distinct)
  consider
    (same) "content (store (handle e s req d)) = content d"
      "\<forall>i. req \<noteq> Get_content_id i"
  | (get) i where "req = Get_content_id i"
  | (upd) i b v where "req = Put_admin_content i b" "content (store (handle e s req d)) =
          map (\<lambda>r. if id_c r = i then set_content (js_now e) v r else r) (content d)"
  | (del) i b where "req = Delete_admin_content i b"
        "content (store (handle e s req d)) = filter (\<lambda>r. id_c r \<noteq> i) (content d)"
  | (new) b v where "req = Post_admin_content b" "uuid e \<notin> set (map id_c (content d))"
        "content (store (handle e s req d)) = content d @ [new_content e v]"
    using handle_content_cases [of e s req d] by blast
  then have "viewCount r' =
      Some (if req = Get_content_id (id_c r) \<and> bindable (id_c r) \<and>
               isActive r = Some True \<and> n \<noteq> 2147483647
            then n + 1 else n)"
  proof cases
    case same
    with r' same_id have "r' = r" using uniq [of r'] by simp
    with same(2) n show ?thesis by simp
  next
    case (get i)
    show ?thesis
    proof (cases "bindable i")
      case False
      with get have "content (store (handle e s req d)) = content d"
        by (simp add: get_content_id_def bind_def reply_def)
      with r' same_id have "r' = r" using uniq [of r'] by simp
      with False get n show ?thesis by auto
    next
      case True
      with get have h: "handle e s req d = get_content_id_after_read i (getContentById d i) d"
        by (simp add: get_content_id_def bind_def)
      have found: "getContentById d i \<noteq> None \<longleftrightarrow> isActive r = Some True" if "id_c r = i"
      proof
        assume "getContentById d i \<noteq> None"
        then obtain r0 where "getContentById d i = Some r0" by auto
        then have "r0 \<in> set (content d)" "id_c r0 = i" "isActive r0 = Some True"
          by (auto dest: getContentById_SomeD)
        with that show "isActive r = Some True" using uniq [of r0] by simp
      next
        assume "isActive r = Some True"
        with r that show "getContentById d i \<noteq> None"
          by (auto simp: getContentById_None)
      qed
      from r' have "r' \<in> set (content (store (get_content_id_after_read i (getContentById d i) d)))"
        unfolding h .
      from after_read_counter [OF assms r n this same_id]
      have "viewCount r' =
          Some (if id_c r = i \<and> getContentById d i \<noteq> None \<and> bindable i \<and> n \<noteq> 2147483647
                then n + 1 else n)" .
      with found get True show ?thesis
        by auto
    qed
  next
    case upd
    from r' upd(2) obtain y where y: "y \<in> set (content d)"
      "r' = (if id_c y = i then set_content (js_now e) v y else y)"
      by auto
    from y(2) have "id_c r' = id_c y" and "viewCount r' = viewCount y" by simp_all
    with same_id y(1) have "viewCount r' = viewCount r" using uniq [of y] by simp
    with n upd(1) show ?thesis by simp
  next
    case del
    with r' same_id have "r' = r" using uniq [of r'] by simp
    with n del(1) show ?thesis by simp
  next
    case new
    from new(2) r have "id_c r \<noteq> uuid e" by (metis image_eqI set_map)
    with r' same_id new(3) have "r' \<in> set (content d)"
      by (auto simp: new_content_def)
    with same_id have "r' = r" using uniq [of r'] by simp
    with n new(1) show ?thesis by simp
  qed
  with n show "\<exists>n. viewCount r = Some n \<and> viewCount r' =
      Some (if req = Get_content_id (id_c r) \<and> bindable (id_c r) \<and>
               isActive r = Some True \<and> n \<noteq> 2147483647
            then n + 1 else n)"
    by simp
next
  fix r'
  assume r': "r' \<in> set (content (store (handle e s req d)))"
    and fresh: "id_c r' \<notin> id_c ` set (content d)"
  consider
    (same) "content (store (handle e s req d)) = content d"
  | (incr) i where "incrementViewCount d i = Inr (store (handle e s req d))"
  | (upd) i v where "content (store (handle e s req d)) =
          map (\<lambda>r. if id_c r = i then set_content (js_now e) v r else r) (content d)"
  | (del) i where "content (store (handle e s req d)) = filter (\<lambda>r. id_c r \<noteq> i) (content d)"
  | (new) v where "content (store (handle e s req d)) = content d @ [new_content e v]"
    using handle_content_cases [of e s req d] by blast
  then show "viewCount r' = Some 0"
  proof cases
    case same
    with r' fresh show ?thesis by auto
  next
    case incr
    from incrementViewCount_Inr [OF incr] r' fresh show ?thesis
      by (auto split: if_splits)
  next
    case upd
    with r' fresh show ?thesis
      by (auto split: if_splits)
  next
    case del
    with r' fresh show ?thesis by auto
  next
    case new
    with r' fresh show ?thesis
      by (auto simp: new_content_def)
  qed
next
  fix r r'
  assume r: "r \<in> set (content d)"
    and r': "r' \<in> set (content (store (get_content_id_after_read i found d)))"
    and same_id: "id_c r' = id_c r"
  from assms r obtain n where n: "viewCount r = Some n"
    using wfD_viewCount by blast
  from after_read_counter [OF assms r n r' same_id] n
  show "\<exists>n. viewCount r = Some n \<and>
      viewCount r' =
        Some (if id_c r = i \<and> found \<noteq> None \<and> bindable i \<and> n \<noteq> 2147483647
              then n + 1 else n)"
    by simp
qed

text \<open>
  The claim as it was stated fails at a counter at the greatest integer:
  \<open>incrementViewCount\<close> is called and raises, and the counter is not increased.
\<close>

theorem viewCount_monotonic_counterexample:
  "row_c7 \<in> set (content store_max) \<and> viewCount row_c7 = Some 2147483647 \<and>
   incrementViewCount store_max ''c7'' = Inl IntegerOutOfRange \<and>
   calls (handle env_a None (Get_content_id ''c7'') store_max) =
     [Call_getContentById, Call_incrementViewCount] \<and>
   content (store (handle env_a None (Get_content_id ''c7'') store_max)) = [row_c7]"
proof -
  have "calls (handle env_a None (Get_content_id ''c7'') store_max) =
      [Call_getContentById, Call_incrementViewCount]"
    by (simp add: get_content_id_def get_content_id_after_read_def bind_def bindable_ids
        read_c7 increment_c7 reply_def)
  moreover have "content store_max = [row_c7]"
    by (simp add: store_max_def)
  ultimately show ?thesis
    using get_c7 increment_c7 counts_a by simp
qed

theorem viewCount_monotonic_witness:
  "wf store_a \<and> row_c1 \<in> set (content store_a) \<and>
   property body_b ''viewCount'' = Some (JNum 999) \<and>
   set_content 41 data_b row_c1
     \<in> set (content (store (handle env_a None (Put_admin_content ''c1'' body_b) store_a))) \<and>
   (\<exists>n. viewCount row_c1 = Some n \<and> viewCount (set_content 41 data_b row_c1) = Some n) \<and>
   row_c1\<lparr>viewCount := Some 4\<rparr>
     \<in> set (content (store (handle env_a None (Get_content_id ''c1'') store_a))) \<and>
   (\<exists>n. viewCount row_c1 = Some n \<and> viewCount (row_c1\<lparr>viewCount := Some 4\<rparr>) = Some (n + 1)) \<and>
   property body_c ''viewCount'' = Some (JNum 999) \<and>
   new_content env_a data_c
     \<in> set (content (store (handle env_a None (Post_admin_content body_c) store_a))) \<and>
   id_c (new_content env_a data_c) \<notin> id_c ` set (content store_a) \<and>
   viewCount (new_content env_a data_c) = Some 0 \<and>
   wf store_max \<and> row_c7 \<in> set (content store_max) \<and>
   row_c7 \<in> set (content (store (get_content_id_after_read ''c7'' (Some row_c7) store_max))) \<and>
   (\<exists>n. viewCount row_c7 = Some n \<and> n = 2147483647)"
proof -
  note mono = viewCount_monotonic [OF wf_store_a, where e = env_a and s = None]
  have c1: "row_c1 \<in> set (content store_a)"
    by (simp add: content_store_a)
  have in_put: "set_content 41 data_b row_c1
      \<in> set (content (store (handle env_a None (Put_admin_content ''c1'' body_b) store_a)))"
    unfolding put_b by simp
  have "id_c (set_content 41 data_b row_c1) = id_c row_c1"
    by simp
  with mono [where req = "Put_admin_content ''c1'' body_b"] c1 in_put
  have upd: "\<exists>n. viewCount row_c1 = Some n \<and> viewCount (set_content 41 data_b row_c1) = Some n"
    by fastforce
  have in_get: "row_c1\<lparr>viewCount := Some 4\<rparr>
      \<in> set (content (store (handle env_a None (Get_content_id ''c1'') store_a)))"
    unfolding get_c1 by simp
  have "id_c (row_c1\<lparr>viewCount := Some 4\<rparr>) = id_c row_c1"
    by simp
  with mono [where req = "Get_content_id ''c1''"] c1 in_get
  have "\<exists>n. viewCount row_c1 = Some n \<and>
      viewCount (row_c1\<lparr>viewCount := Some 4\<rparr>) =
        Some (if Get_content_id ''c1'' = Get_content_id (id_c row_c1) \<and> bindable (id_c row_c1) \<and>
                 isActive row_c1 = Some True \<and> n \<noteq> 2147483647
              then n + 1 else n)"
    by blast
  then have get: "\<exists>n. viewCount row_c1 = Some n \<and>
      viewCount (row_c1\<lparr>viewCount := Some 4\<rparr>) = Some (n + 1)"
    by (simp add: counts_a)
  have in_post: "new_content env_a data_c
      \<in> set (content (store (handle env_a None (Post_admin_content body_c) store_a)))"
    unfolding post_c by simp
  have fresh: "id_c (new_content env_a data_c) \<notin> id_c ` set (content store_a)"
    by (simp add: new_content_def env_a_def content_store_a id_rows)
  from mono [where req = "Post_admin_content body_c"] in_post fresh
  have new: "viewCount (new_content env_a data_c) = Some 0"
    by blast
  have bodies: "property body_b ''viewCount'' = Some (JNum 999)"
    "property body_c ''viewCount'' = Some (JNum 999)"
    by (simp_all add: body_b_def body_c_def)
  have c7: "row_c7 \<in> set (content store_max)"
    by (simp add: store_max_def)
  have in_max: "row_c7
      \<in> set (content (store (get_content_id_after_read ''c7'' (Some row_c7) store_max)))"
    by (simp add: get_content_id_after_read_def increment_c7 reply_def c7)
  from viewCount_monotonic [OF wf_store_max, where i = "''c7''" and found = "Some row_c7"]
    c7 in_max
  have "\<exists>n. viewCount row_c7 = Some n \<and>
      viewCount row_c7 =
        Some (if id_c row_c7 = ''c7'' \<and> Some row_c7 \<noteq> None \<and> bindable ''c7'' \<and> n \<noteq> 2147483647
              then n + 1 else n)"
    by blast
  then have stays: "\<exists>n. viewCount row_c7 = Some n \<and> n = 2147483647"
    using bindable_ids id_rows by (auto split: if_splits)
  from wf_store_a wf_store_max c1 c7 bodies in_put upd in_get get in_post fresh new in_max stays
  show ?thesis
    by blast
qed

section \<open>Favorites\<close>



section \<open>The featured item\<close>

text \<open>
  Claim C9. \<open>getFeaturedContent\<close> returns one row or none. It returns none exactly
  when no row is both featured and active; the row it returns is featured and active,
  and no featured active row has a later \<open>createdAt\<close>.
\<close>

theorem featured_newest:
  assumes "wf d"
  shows "(getFeaturedContent d = None \<longleftrightarrow>
            (\<forall>x \<in> set (content d). \<not> (isFeatured x = Some True \<and> isActive x = Some True))) \<and>
         (\<forall>r. getFeaturedContent d = Some r \<longrightarrow>
            r \<in> set (content d) \<and> isFeatured r = Some True \<and> isActive r = Some True \<and>
            (\<forall>x \<in> set (content d). isFeatured x = Some True \<and> isActive x = Some True \<longrightarrow>
               (\<exists>t u. createdAt x = Some t \<and> createdAt r = Some u \<and> t \<le> u)))"
proof (intro conjI allI impI)
  show "getFeaturedContent d = None \<longleftrightarrow>
          (\<forall>x \<in> set (content d). \<not> (isFeatured x = Some True \<and> isActive x = Some True))"
    by (simp add: getFeaturedContent_def first_None_iff sort_key_Nil_iff filter_empty_conv)
next
  fix r
  assume got: "getFeaturedContent d = Some r"
  define rows where
    "rows = filter (\<lambda>r. isFeatured r = Some True \<and> isActive r = Some True) (content d)"
  from got obtain rest where sorted_rows: "sort_key (\<lambda>r. desc (createdAt r)) rows = r # rest"
    unfolding getFeaturedContent_def rows_def
    by (cases "sort_key (\<lambda>r. desc (createdAt r))
          (filter (\<lambda>r. isFeatured r = Some True \<and> isActive r = Some True) (content d))") auto
  have "r \<in> set (sort_key (\<lambda>r. desc (createdAt r)) rows)"
    unfolding sorted_rows by simp
  then have r: "r \<in> set (content d)" "isFeatured r = Some True" "isActive r = Some True"
    by (simp_all add: rows_def)
  from r show "r \<in> set (content d)" and "isFeatured r = Some True" and "isActive r = Some True" .
  have "sorted (map (\<lambda>r. desc (createdAt r)) (sort_key (\<lambda>r. desc (createdAt r)) rows))"
    by (rule sorted_sort_key)
  then have least: "desc (createdAt r) \<le> desc (createdAt x)" if "x \<in> set rest" for x
    unfolding sorted_rows using that by auto
  show "\<forall>x \<in> set (content d). isFeatured x = Some True \<and> isActive x = Some True \<longrightarrow>
          (\<exists>t u. createdAt x = Some t \<and> createdAt r = Some u \<and> t \<le> u)"
  proof (intro ballI impI)
    fix x
    assume x: "x \<in> set (content d)" and fx: "isFeatured x = Some True \<and> isActive x = Some True"
    from assms x obtain t where t: "createdAt x = Some t"
      using wfD_createdAt by blast
    from assms r(1) obtain u where u: "createdAt r = Some u"
      using wfD_createdAt by blast
    from x fx have "x \<in> set (sort_key (\<lambda>r. desc (createdAt r)) rows)"
      by (simp add: rows_def)
    then have "x = r \<or> x \<in> set rest"
      unfolding sorted_rows by simp
    then have "desc (createdAt r) \<le> desc (createdAt x)"
      using least by auto
    with t u have "t \<le> u"
      by (simp add: desc_def)
    with t u show "\<exists>t u. createdAt x = Some t \<and> createdAt r = Some u \<and> t \<le> u"
      by simp
  qed
qed

theorem featured_newest_witness:
  "wf store_a \<and>
   length (filter (\<lambda>x. isFeatured x = Some True) (content store_a)) = 3 \<and>
   getFeaturedContent store_a = Some row_c3 \<and>
   row_c3 \<in> set (content store_a) \<and> isFeatured row_c3 = Some True \<and>
   isActive row_c3 = Some True \<and> row_c1 \<in> set (content store_a) \<and>
   (\<exists>t u. createdAt row_c1 = Some t \<and> createdAt row_c3 = Some u \<and> t \<le> u)"
proof -
  have got: "getFeaturedContent store_a = Some row_c3"
    by (simp add: getFeaturedContent_def store_a_def row_c1_def row_c2_def row_c3_def example_row_def desc_def)
  have c1: "row_c1 \<in> set (content store_a)" "isFeatured row_c1 = Some True \<and> isActive row_c1 = Some True"
    by (simp_all add: content_store_a) (simp_all add: row_c1_def example_row_def)
  from featured_newest [OF wf_store_a] got
  have "row_c3 \<in> set (content store_a) \<and> isFeatured row_c3 = Some True \<and>
      isActive row_c3 = Some True \<and>
      (\<forall>x \<in> set (content store_a). isFeatured x = Some True \<and> isActive x = Some True \<longrightarrow>
         (\<exists>t u. createdAt x = Some t \<and> createdAt row_c3 = Some u \<and> t \<le> u))"
    by blast
  with c1 have "row_c3 \<in> set (content store_a) \<and> isFeatured row_c3 = Some True \<and>
      isActive row_c3 = Some True \<and>
      (\<exists>t u. createdAt row_c1 = Some t \<and> createdAt row_c3 = Some u \<and> t \<le> u)"
    by blast
  moreover have "length (filter (\<lambda>x. isFeatured x = Some True) (content store_a)) = 3"
    by (simp add: store_a_def row_c1_def row_c2_def row_c3_def example_row_def)
  ultimately show ?thesis
    using wf_store_a got c1 by simp
qed

section \<open>The counter in the response\<close>

text \<open>
  Claim C10, as the code has it. A \<open>GET /api/content/:id\<close> that is answered with 200,
  and whose increment runs while the row is still in the store as the request read it
  (so always when nothing runs between its two statements), sends that row, counter
  included; in the store the request leaves, the row of that id has a counter one
  higher than the one sent.
\<close>

theorem response_count_is_old:
  "(wf d \<and> status (handle e s (Get_content_id i) d) = 200 \<longrightarrow>
      (\<exists>r n. body (handle e s (Get_content_id i) d) = ContentJ r \<and>
         r \<in> set (content d) \<and> id_c r = i \<and> viewCount r = Some n \<and>
         r\<lparr>viewCount := Some (n + 1)\<rparr>
           \<in> set (content (store (handle e s (Get_content_id i) d))) \<and>
         (\<forall>x \<in> set (content (store (handle e s (Get_content_id i) d))).
            id_c x = i \<longrightarrow> viewCount x = Some (n + 1)))) \<and>
   (wf d \<and> r0 \<in> set (content d) \<and> id_c r0 = i \<and>
    status (get_content_id_after_read i (Some r0) d) = 200 \<longrightarrow>
      body (get_content_id_after_read i (Some r0) d) = ContentJ r0 \<and>
      (\<exists>n. viewCount r0 = Some n \<and>
         r0\<lparr>viewCount := Some (n + 1)\<rparr>
           \<in> set (content (store (get_content_id_after_read i (Some r0) d))) \<and>
         (\<forall>x \<in> set (content (store (get_content_id_after_read i (Some r0) d))).
            id_c x = i \<longrightarrow> viewCount x = Some (n + 1))))"
proof -
  have step: "body (get_content_id_after_read i (Some r) d) = ContentJ r \<and>
      (\<exists>n. viewCount r = Some n \<and>
         r\<lparr>viewCount := Some (n + 1)\<rparr>
           \<in> set (content (store (get_content_id_after_read i (Some r) d))) \<and>
         (\<forall>x \<in> set (content (store (get_content_id_after_read i (Some r) d))).
            id_c x = i \<longrightarrow> viewCount x = Some (n + 1)))"
    if w: "wf d" and r: "r \<in> set (content d)" "id_c r = i"
      and ok: "status (get_content_id_after_read i (Some r) d) = 200" for r
  proof -
    from ok obtain d' where d': "incrementViewCount d i = Inr d'"
      by (cases "incrementViewCount d i")
        (auto simp: get_content_id_after_read_def reply_def)
    from w r(1) obtain n where n: "viewCount r = Some n"
      using wfD_viewCount by blast
    from d' have b: "bindable i"
      by (auto simp: incrementViewCount_def split: if_splits)
    from d' r n have top: "n \<noteq> 2147483647"
      by (auto simp: incrementViewCount_def list_ex_iff split: if_splits)
    from w r n b top have "incrementViewCount d i =
        Inr (d\<lparr>content := map (\<lambda>x. if x = r then r\<lparr>viewCount := Some (n + 1)\<rparr> else x) (content d)\<rparr>)"
      using increment_only_row [of d r n] by auto
    then have out: "body (get_content_id_after_read i (Some r) d) = ContentJ r"
      "content (store (get_content_id_after_read i (Some r) d)) =
         map (\<lambda>x. if x = r then r\<lparr>viewCount := Some (n + 1)\<rparr> else x) (content d)"
      by (simp_all add: get_content_id_after_read_def reply_def)
    have "r\<lparr>viewCount := Some (n + 1)\<rparr>
        \<in> set (content (store (get_content_id_after_read i (Some r) d)))"
      unfolding out(2) using r(1) by force
    moreover have "viewCount x = Some (n + 1)"
      if "x \<in> set (content (store (get_content_id_after_read i (Some r) d)))" and "id_c x = i"
      for x
    proof -
      from that(1) obtain y where y: "y \<in> set (content d)"
        "x = (if y = r then r\<lparr>viewCount := Some (n + 1)\<rparr> else y)"
        unfolding out(2) by auto
      show ?thesis
      proof (cases "y = r")
        case True
        with y show ?thesis by simp
      next
        case False
        with y that(2) r have "id_c y = id_c r" by simp
        with y(1) r(1) w have "y = r"
          using distinct_id_eq [of id_c "content d" y r] by (auto dest: wfD_distinct)
        with False show ?thesis by simp
      qed
    qed
    ultimately show ?thesis
      using out(1) n by blast
  qed
  have alone: "\<exists>r n. body (handle e s (Get_content_id i) d) = ContentJ r \<and>
         r \<in> set (content d) \<and> id_c r = i \<and> viewCount r = Some n \<and>
         r\<lparr>viewCount := Some (n + 1)\<rparr>
           \<in> set (content (store (handle e s (Get_content_id i) d))) \<and>
         (\<forall>x \<in> set (content (store (handle e s (Get_content_id i) d))).
            id_c x = i \<longrightarrow> viewCount x = Some (n + 1))"
    if w: "wf d" and ok: "status (handle e s (Get_content_id i) d) = 200"
  proof -
    from ok have b: "bindable i"
      by (cases "bindable i") (auto simp: get_content_id_def bind_def reply_def)
    then have h: "handle e s (Get_content_id i) d =
        get_content_id_after_read i (getContentById d i) d"
      by (simp add: get_content_id_def bind_def)
    from ok obtain r where found: "getContentById d i = Some r"
      unfolding h by (cases "getContentById d i")
        (auto simp: get_content_id_after_read_def reply_def)
    then have r: "r \<in> set (content d)" "id_c r = i"
      by (auto dest: getContentById_SomeD)
    from ok have "status (get_content_id_after_read i (Some r) d) = 200"
      unfolding h found .
    from step [OF w r this] r show ?thesis
      unfolding h found by blast
  qed
  from step alone show ?thesis
    by blast
qed

lemma increment_c1_twice:
  "incrementViewCount (store_a\<lparr>content := [row_c1\<lparr>viewCount := Some 4\<rparr>, row_c2, row_c3]\<rparr>) ''c1'' =
     Inr (store_a\<lparr>content := [row_c1\<lparr>viewCount := Some 5\<rparr>, row_c2, row_c3]\<rparr>)"
  by (simp add: incrementViewCount_def id_rows counts_a bindable_ids)

text \<open>
  The claim as it was stated fails when two requests for the same item overlap: both
  read the row, then both increment. The second answer carries the counter 3 that
  was read, and the store holds 5 once the request completes.
\<close>

theorem response_count_is_old_counterexample:
  "getContentById store_a ''c1'' = Some row_c1 \<and> viewCount row_c1 = Some 3 \<and>
   status (get_content_id_after_read ''c1'' (Some row_c1)
             (store (get_content_id_after_read ''c1'' (Some row_c1) store_a))) = 200 \<and>
   body (get_content_id_after_read ''c1'' (Some row_c1)
           (store (get_content_id_after_read ''c1'' (Some row_c1) store_a))) = ContentJ row_c1 \<and>
   map viewCount
     (content (store (get_content_id_after_read ''c1'' (Some row_c1)
                        (store (get_content_id_after_read ''c1'' (Some row_c1) store_a))))) =
     [Some 5, Some 8, Some 5]"
proof -
  have first_done: "store (get_content_id_after_read ''c1'' (Some row_c1) store_a) =
      store_a\<lparr>content := [row_c1\<lparr>viewCount := Some 4\<rparr>, row_c2, row_c3]\<rparr>"
    by (simp add: get_content_id_after_read_def increment_c1 reply_def)
  show ?thesis
    unfolding first_done
    by (simp add: get_content_id_after_read_def increment_c1_twice reply_def read_c1 counts_a)
qed

theorem response_count_is_old_witness:
  "wf store_a \<and> status (handle env_a None (Get_content_id ''c3'') store_a) = 200 \<and>
   (\<exists>r n. body (handle env_a None (Get_content_id ''c3'') store_a) = ContentJ r \<and>
      r \<in> set (content store_a) \<and> id_c r = ''c3'' \<and> viewCount r = Some n \<and>
      r\<lparr>viewCount := Some (n + 1)\<rparr>
        \<in> set (content (store (handle env_a None (Get_content_id ''c3'') store_a)))) \<and>
   row_c1 \<in> set (content store_a) \<and> id_c row_c1 = ''c1'' \<and>
   status (get_content_id_after_read ''c1'' (Some row_c1) store_a) = 200 \<and>
   body (get_content_id_after_read ''c1'' (Some row_c1) store_a) = ContentJ row_c1 \<and>
   (\<exists>n. viewCount row_c1 = Some n \<and>
      row_c1\<lparr>viewCount := Some (n + 1)\<rparr>
        \<in> set (content (store (get_content_id_after_read ''c1'' (Some row_c1) store_a))))"
proof -
  have "getContentById store_a ''c3'' = Some row_c3"
    by (simp add: getContentById_def content_store_a id_rows flags_a)
  moreover have "incrementViewCount store_a ''c3'' =
      Inr (store_a\<lparr>content := [row_c1, row_c2, row_c3\<lparr>viewCount := Some 6\<rparr>]\<rparr>)"
    by (simp add: incrementViewCount_def content_store_a id_rows counts_a bindable_ids)
  ultimately have ok: "status (handle env_a None (Get_content_id ''c3'') store_a) = 200"
    by (simp add: get_content_id_def get_content_id_after_read_def bind_def bindable_ids
        reply_def)
  have c1: "row_c1 \<in> set (content store_a)"
    by (simp add: content_store_a)
  have ok1: "status (get_content_id_after_read ''c1'' (Some row_c1) store_a) = 200"
    by (simp add: get_content_id_after_read_def increment_c1 reply_def)
  from response_count_is_old [where d = store_a and e = env_a and s = None and i = "''c3''"]
    wf_store_a ok
  have alone: "\<exists>r n. body (handle env_a None (Get_content_id ''c3'') store_a) = ContentJ r \<and>
      r \<in> set (content store_a) \<and> id_c r = ''c3'' \<and> viewCount r = Some n \<and>
      r\<lparr>viewCount := Some (n + 1)\<rparr>
        \<in> set (content (store (handle env_a None (Get_content_id ''c3'') store_a)))"
    by blast
  from response_count_is_old [where d = store_a and i = "''c1''" and ?r0.0 = row_c1]
    wf_store_a c1 id_rows ok1
  have step: "body (get_content_id_after_read ''c1'' (Some row_c1) store_a) = ContentJ row_c1 \<and>
      (\<exists>n. viewCount row_c1 = Some n \<and>
         row_c1\<lparr>viewCount := Some (n + 1)\<rparr>
           \<in> set (content (store (get_content_id_after_read ''c1'' (Some row_c1) store_a))))"
    by blast
  from wf_store_a ok alone c1 id_rows ok1 step show ?thesis
    by blast
qed

section \<open>Validation failures\<close>

text \<open>
  Claim C4, at a body with no \<open>contentId\<close>: the parse of \<open>POST /api/favorites\<close> fails
  with an issue for that key, and the handler answers 500 with a generic message. The
  same kind of failure on \<open>POST /api/admin/content\<close> is answered with 400 and the
  issues.
\<close>

theorem favorites_invalid_body:
  "insertFavoriteSchema_parse (with_userId (JObj []) ''u1'') = Inl [Required ''contentId''] \<and>
   status (handle env_a (Some ''u1'') (Post_favorites (JObj [])) store_b) = 500 \<and>
   body (handle env_a (Some ''u1'') (Post_favorites (JObj [])) store_b) =
     MessageJ ''Failed to add to favorites'' \<and>
   insertContentSchema_parse (body_or (JObj [(''password'', JStr ADMIN_PASSWORD)]) ''content'') =
     Inl [Required ''title'', Required ''type''] \<and>
   status (handle env_a None (Post_admin_content (JObj [(''password'', JStr ADMIN_PASSWORD)])) store_b) = 400 \<and>
   body (handle env_a None (Post_admin_content (JObj [(''password'', JStr ADMIN_PASSWORD)])) store_b) =
     InvalidJ ''Invalid content data'' [Required ''title'', Required ''type'']"
  by (simp add: insertFavoriteSchema_parse_def insertFavoriteSchema_issues_def with_userId_def
      is_object_def required_def isAuthenticated_def post_favorites_def reply_def
      insertContentSchema_parse_def insertContentSchema_issues_def body_or_def
      content_issues_def nullish_def checkAdminPassword_def post_admin_content_def)

text \<open>
  On the admin routes a failed parse is answered with 400 and the issues of the parse,
  and the store is left as it was.
\<close>

lemma parse_issues_nonempty:
  "insertContentSchema_parse j = Inl issues \<Longrightarrow> issues \<noteq> []"
  "partialContentSchema_parse j = Inl issues \<Longrightarrow> issues \<noteq> []"
  "insertEpisodeSchema_parse j = Inl issues \<Longrightarrow> issues \<noteq> []"
  by (auto simp: insertContentSchema_parse_def partialContentSchema_parse_def
      insertEpisodeSchema_parse_def split: if_splits)

theorem admin_invalid_body:
  assumes "property b ''password'' = Some (JStr ADMIN_PASSWORD)"
  shows "(insertContentSchema_parse (body_or b ''content'') = Inl issues \<longrightarrow>
            status (handle e s (Post_admin_content b) d) = 400 \<and>
            body (handle e s (Post_admin_content b) d) = InvalidJ ''Invalid content data'' issues \<and>
            store (handle e s (Post_admin_content b) d) = d \<and> issues \<noteq> []) \<and>
         (partialContentSchema_parse (body_or b ''content'') = Inl issues \<longrightarrow>
            status (handle e s (Put_admin_content i b) d) = 400 \<and>
            body (handle e s (Put_admin_content i b) d) = InvalidJ ''Invalid content data'' issues \<and>
            store (handle e s (Put_admin_content i b) d) = d \<and> issues \<noteq> []) \<and>
         (insertEpisodeSchema_parse (body_or b ''episode'') = Inl issues \<longrightarrow>
            status (handle e s (Post_admin_episodes b) d) = 400 \<and>
            body (handle e s (Post_admin_episodes b) d) = InvalidJ ''Invalid episode data'' issues \<and>
            store (handle e s (Post_admin_episodes b) d) = d \<and> issues \<noteq> [])"
  using assms
  by (auto simp: checkAdminPassword_def post_admin_content_def put_admin_content_def
      post_admin_episodes_def reply_def dest: parse_issues_nonempty)

theorem admin_invalid_body_witness:
  "property (JObj [(''password'', JStr ''cla-SAMU20''), (''title'', JNum 7)]) ''password'' =
     Some (JStr ADMIN_PASSWORD) \<and>
   insertContentSchema_parse
     (body_or (JObj [(''password'', JStr ''cla-SAMU20''), (''title'', JNum 7)]) ''content'') =
     Inl [InvalidType ''title'', Required ''type''] \<and>
   status (handle env_a None
     (Post_admin_content (JObj [(''password'', JStr ''cla-SAMU20''), (''title'', JNum 7)])) store_a) = 400 \<and>
   body (handle env_a None
     (Post_admin_content (JObj [(''password'', JStr ''cla-SAMU20''), (''title'', JNum 7)])) store_a) =
     InvalidJ ''Invalid content data'' [InvalidType ''title'', Required ''type'']"
proof -
  have pw: "property (JObj [(''password'', JStr ''cla-SAMU20''), (''title'', JNum 7)]) ''password'' =
      Some (JStr ADMIN_PASSWORD)"
    by (simp add: ADMIN_PASSWORD_def)
  have parse: "insertContentSchema_parse
      (body_or (JObj [(''password'', JStr ''cla-SAMU20''), (''title'', JNum 7)]) ''content'') =
      Inl [InvalidType ''title'', Required ''type'']"
    by (simp add: insertContentSchema_parse_def insertContentSchema_issues_def body_or_def
        is_object_def required_def nullish_def content_issues_def)
  from admin_invalid_body [OF pw, of "[InvalidType ''title'', Required ''type'']" env_a None store_a]
    parse pw
  show ?thesis
    by blast
qed

section \<open>Search\<close>

text \<open>
  Claim C8, at the queries \<open>_\<close>, \<open>%\<close> and \<open>a_i\<close>: \<open>searchContent\<close> returns active
  rows whose titles do not contain the query, since the query is put into the
  \<open>ILIKE\<close> pattern as it is and its \<open>%\<close> and \<open>_\<close> act as wildcards.
\<close>

theorem search_wildcards:
  "searchContent store_a ''_'' = [row_c3, row_c1] \<and>
   \<not> contains_ci (title row_c3) ''_'' \<and> \<not> contains_ci (title row_c1) ''_'' \<and>
   searchContent store_a ''%'' = [row_c3, row_c1] \<and>
   \<not> contains_ci (title row_c3) ''%'' \<and> \<not> contains_ci (title row_c1) ''%'' \<and>
   searchContent store_a ''a_i'' = [row_c1] \<and> \<not> contains_ci (title row_c1) ''a_i''"
  by (simp add: searchContent_def content_store_a titles_a flags_a times_a desc_def
      ilike_def contains_ci_def to_lower_def sublist_code prefix_code)

text \<open>
  A query without \<open>%\<close>, \<open>_\<close> and backslash is matched literally: the pattern
  \<open>%query%\<close> matches exactly the strings that contain the query, letter case aside.
\<close>

lemma to_lower_wildcard [simp]: "wildcard (to_lower c) \<longleftrightarrow> wildcard c"
  by (auto simp: to_lower_def wildcard_def split: option.splits if_splits)

lemma like_match_any [simp]: "like_match ''%'' s"
  by (induction s) auto

lemma like_match_literal:
  "\<forall>c \<in> set lit. \<not> wildcard c \<Longrightarrow>
     like_match (lit @ ps) s \<longleftrightarrow> (\<exists>s'. s = lit @ s' \<and> like_match ps s')"
proof (induction lit arbitrary: s)
  case Nil
  then show ?case by simp
next
  case (Cons a lit)
  then have a: "a \<noteq> CHR ''%''" "a \<noteq> CHR ''_''" "a \<noteq> CHR 0x5C"
    by (auto simp: wildcard_def)
  show ?case
  proof (cases s)
    case Nil
    with a show ?thesis by simp
  next
    case (Cons c cs)
    with a Cons.IH [of cs] Cons.prems show ?thesis
      by auto
  qed
qed

lemma like_match_percent:
  "like_match (CHR ''%'' # ps) s \<longleftrightarrow> (\<exists>pre post. s = pre @ post \<and> like_match ps post)"
proof (induction s)
  case Nil
  then show ?case by simp
next
  case (Cons c cs)
  show ?case
  proof
    assume "like_match (CHR ''%'' # ps) (c # cs)"
    then consider "like_match ps (c # cs)" | "like_match (CHR ''%'' # ps) cs"
      by auto
    then show "\<exists>pre post. c # cs = pre @ post \<and> like_match ps post"
    proof cases
      case 1
      then have "c # cs = [] @ (c # cs) \<and> like_match ps (c # cs)" by simp
      then show ?thesis by blast
    next
      case 2
      with Cons.IH obtain pre post where "cs = pre @ post" "like_match ps post" by blast
      then have "c # cs = (c # pre) @ post \<and> like_match ps post" by simp
      then show ?thesis by blast
    qed
  next
    assume "\<exists>pre post. c # cs = pre @ post \<and> like_match ps post"
    then obtain pre post where s: "c # cs = pre @ post" and m: "like_match ps post"
      by blast
    show "like_match (CHR ''%'' # ps) (c # cs)"
    proof (cases pre)
      case Nil
      with s m show ?thesis by auto
    next
      case (Cons p pre')
      with s have "cs = pre' @ post" by simp
      with m Cons.IH have "like_match (CHR ''%'' # ps) cs" by blast
      then show ?thesis by simp
    qed
  qed
qed

lemma ilike_contains:
  assumes "\<forall>c \<in> set query. \<not> wildcard c"
  shows "ilike s (''%'' @ query @ ''%'') \<longleftrightarrow> contains_ci s query"
proof -
  have lower_pct: "to_lower CHR ''%'' = CHR ''%''"
    by (simp add: to_lower_def)
  have lit: "\<forall>c \<in> set (map to_lower query). \<not> wildcard c"
    using assms by simp
  have "ilike s (''%'' @ query @ ''%'') \<longleftrightarrow>
      like_match (CHR ''%'' # (map to_lower query @ ''%'')) (map to_lower s)"
    by (simp add: ilike_def lower_pct)
  also have "\<dots> \<longleftrightarrow> (\<exists>pre post. map to_lower s = pre @ post \<and>
      like_match (map to_lower query @ ''%'') post)"
    by (rule like_match_percent)
  also have "\<dots> \<longleftrightarrow> (\<exists>pre post. map to_lower s = pre @ post \<and>
      (\<exists>s'. post = map to_lower query @ s'))"
    using like_match_literal [OF lit, of "''%''"] by simp
  also have "\<dots> \<longleftrightarrow> sublist (map to_lower query) (map to_lower s)"
    by (auto simp: sublist_def)
  finally show ?thesis
    by (simp add: contains_ci_def)
qed

text \<open>
  For such a query \<open>searchContent\<close> returns exactly the active rows whose title
  contains the query, letter case aside, ordered by \<open>createdAt\<close> descending.
\<close>

theorem search_plain_query:
  assumes "\<forall>c \<in> set query. \<not> wildcard c"
  shows "searchContent d query =
         sort_key (\<lambda>r. desc (createdAt r))
           (filter (\<lambda>r. isActive r = Some True \<and> contains_ci (title r) query) (content d))"
proof -
  have "ilike s (''%'' @ query @ ''%'') = contains_ci s query" for s
    using assms by (rule ilike_contains)
  then show ?thesis
    unfolding searchContent_def by simp
qed

theorem search_plain_query_witness:
  "list_all (\<lambda>c. \<not> wildcard c) ''SA'' \<and>
   searchContent store_a ''SA'' = [row_c3] \<and> contains_ci (title row_c3) ''SA'' \<and>
   \<not> contains_ci (title row_c1) ''SA''"
proof -
  have plain: "\<forall>c \<in> set ''SA''. \<not> wildcard c"
    by (simp add: wildcard_def)
  have c: "contains_ci (title row_c3) ''SA''" "\<not> contains_ci (title row_c1) ''SA''"
    "\<not> contains_ci (title row_c2) ''SA''"
    by (simp_all add: titles_a contains_ci_def to_lower_def sublist_code prefix_code)
  have "searchContent store_a ''SA'' = [row_c3]"
    unfolding search_plain_query [OF plain]
    by (simp add: content_store_a flags_a c)
  with c plain show ?thesis
    by (simp add: list_all_iff)
qed

section \<open>Successive increments\<close>

text \<open>
  \<open>N\<close> calls of \<open>incrementViewCount\<close> on the id of a row, one after the other, leave
  that row's counter \<open>N\<close> higher and every other row as it was, as long as the counter
  stays within the integer range. (Each call is one statement; how the store orders
  statements that arrive together is the store's matter and is not modelled.)
\<close>

theorem increments_add_up:
  assumes "wf d" and "r \<in> set (content d)" and "viewCount r = Some n"
    and "bindable (id_c r)" and "n + int N \<le> 2147483647"
  shows "incrementViewCount_times N d (id_c r) =
         Inr (d\<lparr>content :=
                map (\<lambda>x. if x = r then r\<lparr>viewCount := Some (n + int N)\<rparr> else x) (content d)\<rparr>)"
  using assms
proof (induction N arbitrary: d r n)
  case 0
  from "0.prems"(3) have "r\<lparr>viewCount := Some n\<rparr> = r"
    by (cases r) simp
  then have "(\<lambda>x. if x = r then r\<lparr>viewCount := Some (n + int 0)\<rparr> else x) = (\<lambda>x. x)"
    by auto
  then show ?case by simp
next
  case (Suc N)
  define r1 where "r1 = r\<lparr>viewCount := Some (n + 1)\<rparr>"
  define d1 where "d1 = d\<lparr>content := map (\<lambda>x. if x = r then r1 else x) (content d)\<rparr>"
  from Suc.prems have below: "n \<noteq> 2147483647" by simp
  with Suc.prems have one: "incrementViewCount d (id_c r) = Inr d1"
    unfolding d1_def r1_def using increment_only_row [of d r n] by simp
  with Suc.prems(1) have w1: "wf d1"
    by (rule wf_incrementViewCount)
  have in1: "r1 \<in> set (content d1)"
    unfolding d1_def using Suc.prems(2) by force
  have n1: "viewCount r1 = Some (n + 1)" and id1: "id_c r1 = id_c r"
    by (simp_all add: r1_def)
  from Suc.prems have le1: "(n + 1) + int N \<le> 2147483647" by simp
  from Suc.prems(4) have b1: "bindable (id_c r1)"
    by (simp add: id1)
  have same: "id_c x = id_c r \<longleftrightarrow> x = r" if "x \<in> set (content d)" for x
    using that Suc.prems(1,2) distinct_id_eq [of id_c "content d" x r]
    by (auto dest: wfD_distinct)
  have "map (\<lambda>x. if x = r1 then r1\<lparr>viewCount := Some (n + 1 + int N)\<rparr> else x)
          (map (\<lambda>x. if x = r then r1 else x) (content d)) =
        map (\<lambda>x. if x = r then r\<lparr>viewCount := Some (n + int (Suc N))\<rparr> else x) (content d)"
    unfolding map_map
  proof (rule map_cong [OF refl])
    fix x assume x: "x \<in> set (content d)"
    show "((\<lambda>x. if x = r1 then r1\<lparr>viewCount := Some (n + 1 + int N)\<rparr> else x) \<circ>
           (\<lambda>x. if x = r then r1 else x)) x =
          (if x = r then r\<lparr>viewCount := Some (n + int (Suc N))\<rparr> else x)"
    proof (cases "x = r")
      case True
      then show ?thesis by (simp add: r1_def add.assoc)
    next
      case False
      with same [OF x] have "id_c x \<noteq> id_c r1" by (simp add: id1)
      then have "x \<noteq> r1" by auto
      with False show ?thesis by simp
    qed
  qed
  then have rows:
    "map (\<lambda>x. if x = r1 then r1\<lparr>viewCount := Some (n + 1 + int N)\<rparr> else x) (content d1) =
      map (\<lambda>x. if x = r then r\<lparr>viewCount := Some (n + int (Suc N))\<rparr> else x) (content d)"
    by (simp add: d1_def)
  from Suc.IH [OF w1 in1 n1 b1 le1] one rows show ?case
    by (simp add: id1 d1_def)
qed

theorem increments_add_up_witness:
  "wf store_a \<and> row_c1 \<in> set (content store_a) \<and> viewCount row_c1 = Some 3 \<and>
   bindable (id_c row_c1) \<and> (3::int) + int 5 \<le> 2147483647 \<and>
   incrementViewCount_times 5 store_a ''c1'' =
     Inr (store_a\<lparr>content := [row_c1\<lparr>viewCount := Some 8\<rparr>, row_c2, row_c3]\<rparr>)"
proof -
  have c1: "row_c1 \<in> set (content store_a)"
    by (simp add: content_store_a)
  have b: "bindable (id_c row_c1)"
    by (simp add: id_rows bindable_ids)
  have le: "(3::int) + int 5 \<le> 2147483647"
    by simp
  have distinct_rows: "row_c2 \<noteq> row_c1" "row_c3 \<noteq> row_c1"
    using id_rows by auto
  from increments_add_up [OF wf_store_a c1 counts_a(1) b le]
  have "incrementViewCount_times 5 store_a ''c1'' =
      Inr (store_a\<lparr>content := [row_c1\<lparr>viewCount := Some 8\<rparr>, row_c2, row_c3]\<rparr>)"
    by (simp add: id_rows content_store_a distinct_rows)
  with wf_store_a c1 counts_a(1) b le show ?thesis
    by blast
qed


end
